theory Spec2Isabelle
  imports Complex_Main "HOL-Library.AList"
begin

section \<open>JavaScript values of the inbound payloads\<close>

text \<open>
  The socket handlers of \<^verbatim>\<open>server/src/socket-handlers.ts\<close> receive untyped payloads
  (\<^verbatim>\<open>stroke: any\<close>, \<^verbatim>\<open>strokeId\<close>, \<^verbatim>\<open>snapshot\<close>, \<^verbatim>\<open>code\<close>, \<^verbatim>\<open>roomCode\<close>), so the model keeps a
  datatype of JavaScript values. A number is a finite real, an infinity or NaN; only
  \<^verbatim>\<open>typeof\<close>, \<^verbatim>\<open>Number.isFinite\<close> and truthiness are ever used on it. A string is a
  \<^typ>\<open>string\<close>: its characters are the code units below 256.
\<close>

datatype jsnum = Fin real | PosInf | NegInf | NaN

datatype jsval =
    JUndefined
  | JNull
  | JBool bool
  | JNum jsnum
  | JStr string
  | JArr "jsval list"
  | JObj "(string \<times> jsval) list"

text \<open>Truthiness, as \<^verbatim>\<open>!v\<close>, \<^verbatim>\<open>a || b\<close>, \<^verbatim>\<open>a && b\<close> and \<^verbatim>\<open>if (v)\<close> read it.\<close>

fun truthy :: "jsval \<Rightarrow> bool" where
  "truthy JUndefined = False"
| "truthy JNull = False"
| "truthy (JBool b) = b"
| "truthy (JNum n) = (n \<noteq> Fin 0 \<and> n \<noteq> NaN)"
| "truthy (JStr s) = (s \<noteq> [])"
| "truthy (JArr xs) = True"
| "truthy (JObj kvs) = True"

definition js_or :: "jsval \<Rightarrow> jsval \<Rightarrow> jsval" where
  "js_or a b = (if truthy a then a else b)"

text \<open>
  Property read \<^verbatim>\<open>v.k\<close> for the keys the handlers read (\<^verbatim>\<open>color\<close>, \<^verbatim>\<open>width\<close>, \<^verbatim>\<open>size\<close>,
  \<^verbatim>\<open>points\<close>, \<^verbatim>\<open>x\<close>, \<^verbatim>\<open>y\<close>, \<^verbatim>\<open>pressure\<close>, \<^verbatim>\<open>id\<close>, \<^verbatim>\<open>tool\<close>, \<^verbatim>\<open>createdAt\<close>): none of them is
  defined on a primitive or on an array, where the read gives \<^verbatim>\<open>undefined\<close>. The handlers
  never read a property of \<^verbatim>\<open>null\<close> or \<^verbatim>\<open>undefined\<close>: a truthiness test comes first.
\<close>

fun getProp :: "jsval \<Rightarrow> string \<Rightarrow> jsval" where
  "getProp (JObj kvs) k = (case map_of kvs k of Some v \<Rightarrow> v | None \<Rightarrow> JUndefined)"
| "getProp v k = JUndefined"

fun is_number :: "jsval \<Rightarrow> bool" where
  "is_number (JNum n) = True"
| "is_number v = False"

fun is_string :: "jsval \<Rightarrow> bool" where
  "is_string (JStr s) = True"
| "is_string v = False"

text \<open>\<^verbatim>\<open>typeof v === "number" && Number.isFinite(v)\<close>.\<close>

fun is_finite_number :: "jsval \<Rightarrow> bool" where
  "is_finite_number (JNum (Fin r)) = True"
| "is_finite_number v = False"

subsection \<open>Strings\<close>

text \<open>\<^verbatim>\<open>String.prototype.trim\<close>: the white space and line terminators below code unit 256.\<close>

definition is_ws :: "char \<Rightarrow> bool" where
  "is_ws ch = ((of_char ch :: nat) \<in> {9, 10, 11, 12, 13, 32, 160})"

definition trim :: "string \<Rightarrow> string" where
  "trim s = rev (dropWhile is_ws (rev (dropWhile is_ws s)))"

definition startsWith :: "string \<Rightarrow> string \<Rightarrow> bool" where
  "startsWith s p = (take (length p) s = p)"

text \<open>\<^verbatim>\<open>s.slice(0, n)\<close> for a non-negative \<^verbatim>\<open>n\<close>.\<close>

definition slice0 :: "nat \<Rightarrow> string \<Rightarrow> string" where
  "slice0 n s = take n s"

text \<open>\<^verbatim>\<open>Array.prototype.findIndex\<close>; \<^verbatim>\<open>-1\<close> is \<open>None\<close>.\<close>

fun findIndex :: "('a \<Rightarrow> bool) \<Rightarrow> 'a list \<Rightarrow> nat option" where
  "findIndex P [] = None"
| "findIndex P (x # xs) = (if P x then Some 0 else map_option Suc (findIndex P xs))"

text \<open>\<^verbatim>\<open>xs.splice(i, 1)\<close>: the list without its element at index \<open>i\<close>.\<close>

definition splice1 :: "nat \<Rightarrow> 'a list \<Rightarrow> 'a list" where
  "splice1 i xs = take i xs @ drop (Suc i) xs"

section \<open>The room store (\<^verbatim>\<open>server/src/rooms.ts\<close>)\<close>

datatype memberStatus = Online | Offline

record member =
  memberId :: string
  socketId :: string
  clientId :: string
  displayName :: string
  avatar :: string
  isHost :: bool
  joinedAt :: int
  status :: memberStatus
  lastSeen :: int

record memberSnapshot =
  ms_memberId :: string
  ms_clientId :: string
  ms_displayName :: string
  ms_avatar :: string
  ms_isHost :: bool
  ms_joinedAt :: int
  ms_status :: memberStatus

text \<open>
  The entries of \<^verbatim>\<open>room.history\<close> are the \<^verbatim>\<open>normalized\<close> objects the stroke handler
  builds. Their \<^verbatim>\<open>color\<close>, \<^verbatim>\<open>width\<close>, coordinates, \<^verbatim>\<open>pressure\<close> and \<^verbatim>\<open>createdAt\<close> are whatever values the
  payload carried there, so they stay \<^typ>\<open>jsval\<close>s.
\<close>

datatype tool = Pen | Eraser

record point =
  p_x :: jsval
  p_y :: jsval
  p_pressure :: jsval

record stroke =
  s_id :: string
  s_tool :: tool
  s_color :: jsval
  s_width :: jsval
  s_points :: "point list"
  s_createdAt :: jsval

text \<open>
  \<^verbatim>\<open>canvasData\<close> is \<^verbatim>\<open>any | null\<close>; the only values ever stored in it are \<^verbatim>\<open>null\<close> and
  strings. \<^verbatim>\<open>diagramData\<close> is never written after creation.
\<close>

record room =
  code :: string
  passwordHash :: "string option"
  members :: "member list"
  createdAt :: int
  lastActive :: int
  history :: "stroke list"
  canvasData :: "string option"
  diagramData :: "string option"

text \<open>
  \<^verbatim>\<open>RoomStore.rooms\<close> is a \<^verbatim>\<open>Map<string, Room>\<close>, which iterates in insertion order: an
  association list. A room object changed in place is written back under its key with
  \<^const>\<open>AList.update\<close>, which keeps the key's position.
\<close>

type_synonym store = "(string \<times> room) list"

definition getRoom :: "store \<Rightarrow> string \<Rightarrow> room option" where
  "getRoom st c = map_of st c"

definition listRooms :: "store \<Rightarrow> (string \<times> room) list" where
  "listRooms st = st"

definition deleteRoom :: "store \<Rightarrow> string \<Rightarrow> store" where
  "deleteRoom st c = AList.delete c st"

text \<open>
  \<^verbatim>\<open>createRoom\<close> draws codes (\<^verbatim>\<open>generateCode\<close>, from \<^verbatim>\<open>Math.random\<close>) until one is not a key
  of the map. The draws are an input; when every draw collides the loop has not ended
  within them, which is \<open>None\<close>.
\<close>

fun freshCode :: "store \<Rightarrow> string list \<Rightarrow> string option" where
  "freshCode st [] = None"
| "freshCode st (c # cs) = (if map_of st c \<noteq> None then freshCode st cs else Some c)"

definition createRoom ::
  "store \<Rightarrow> string option \<Rightarrow> string list \<Rightarrow> int \<Rightarrow> int \<Rightarrow> (room \<times> store) option" where
  "createRoom st pwHash draws tCreated tActive =
     (case freshCode st draws of
        None \<Rightarrow> None
      | Some c \<Rightarrow>
          let r = \<lparr> code = c, passwordHash = pwHash, members = [], createdAt = tCreated,
                    lastActive = tActive, history = [], canvasData = None,
                    diagramData = None \<rparr>
          in Some (r, AList.update c r st))"

record upsertPayload =
  u_socketId :: string
  u_clientId :: string
  u_displayName :: string
  u_avatar :: string
  u_isHost :: "bool option"

text \<open>
  \<^verbatim>\<open>upsertMember\<close>; \<open>now\<close> is its \<^verbatim>\<open>Date.now()\<close> and \<open>uuid\<close> its \<^verbatim>\<open>randomUUID()\<close>. The
  member found by \<^verbatim>\<open>find\<close> is changed in place, at its index.
\<close>

definition upsertMember ::
  "store \<Rightarrow> string \<Rightarrow> upsertPayload \<Rightarrow> int \<Rightarrow> string \<Rightarrow> member option \<times> store" where
  "upsertMember st c payload now uuid =
     (case getRoom st c of
        None \<Rightarrow> (None, st)
      | Some r \<Rightarrow>
          (case findIndex (\<lambda>m. socketId m = u_socketId payload) (members r) of
             Some i \<Rightarrow>
               let bySocket = members r ! i;
                   bySocket' = bySocket
                     \<lparr> displayName := u_displayName payload,
                       avatar := u_avatar payload,
                       isHost := (case u_isHost payload of
                                    Some b \<Rightarrow> b \<or> isHost bySocket
                                  | None \<Rightarrow> isHost bySocket),
                       status := Online,
                       lastSeen := now \<rparr>
               in (Some bySocket',
                   AList.update c (r \<lparr> members := (members r)[i := bySocket'],
                                       lastActive := now \<rparr>) st)
           | None \<Rightarrow>
               let hasHost = list_ex isHost (members r);
                   m = \<lparr> memberId = uuid,
                         socketId = u_socketId payload,
                         clientId = u_clientId payload,
                         displayName = u_displayName payload,
                         avatar = u_avatar payload,
                         isHost = (case u_isHost payload of
                                     Some b \<Rightarrow> b
                                   | None \<Rightarrow> \<not> hasHost),
                         joinedAt = now,
                         status = Online,
                         lastSeen = now \<rparr>
               in (Some m,
                   AList.update c (r \<lparr> members := members r @ [m],
                                       lastActive := now \<rparr>) st)))"

text \<open>
  The \<^verbatim>\<open>reduce\<close> of \<^verbatim>\<open>removeMemberBySocketId\<close>, on indices: it starts from the seed
  \<^verbatim>\<open>members[0]\<close> and visits every member in list order, replacing the candidate only by a
  member that joined strictly earlier.
\<close>

definition nextHostIndex :: "member list \<Rightarrow> nat" where
  "nextHostIndex ms =
     foldl (\<lambda>candidate current.
              if joinedAt (ms ! current) < joinedAt (ms ! candidate) then current
              else candidate)
       0 [0..<length ms]"

definition removeMemberBySocketId ::
  "store \<Rightarrow> string \<Rightarrow> string \<Rightarrow> int \<Rightarrow> member option \<times> store" where
  "removeMemberBySocketId st c sid now =
     (case getRoom st c of
        None \<Rightarrow> (None, st)
      | Some r \<Rightarrow>
          (case findIndex (\<lambda>m. socketId m = sid) (members r) of
             None \<Rightarrow> (None, st)
           | Some index \<Rightarrow>
               let removed = members r ! index;
                   rest = splice1 index (members r);
                   rest' = (if isHost removed \<and> length rest > 0
                            then let k = nextHostIndex rest
                                 in rest[k := (rest ! k) \<lparr> isHost := True \<rparr>]
                            else rest)
               in (Some removed,
                   AList.update c (r \<lparr> members := rest', lastActive := now \<rparr>) st)))"

definition toMemberSnapshot :: "member \<Rightarrow> memberSnapshot" where
  "toMemberSnapshot m =
     \<lparr> ms_memberId = memberId m, ms_clientId = clientId m,
       ms_displayName = displayName m, ms_avatar = avatar m, ms_isHost = isHost m,
       ms_joinedAt = joinedAt m, ms_status = status m \<rparr>"

definition getMembersSnapshot :: "store \<Rightarrow> string \<Rightarrow> memberSnapshot list" where
  "getMembersSnapshot st c =
     (case getRoom st c of
        None \<Rightarrow> []
      | Some r \<Rightarrow> map toMemberSnapshot (members r))"

definition cleanupInactiveRooms :: "store \<Rightarrow> int \<Rightarrow> int \<Rightarrow> store" where
  "cleanupInactiveRooms st timeoutMs now =
     filter (\<lambda>(c, r). \<not> (now - lastActive r > timeoutMs)) st"

section \<open>The session handlers (\<^verbatim>\<open>server/src/socket-handlers.ts\<close>)\<close>

subsection \<open>What a handler takes from outside\<close>

text \<open>
  \<^verbatim>\<open>bcrypt.hash\<close> salts at random, so it is a function of the password and of a drawn
  salt; \<^verbatim>\<open>bcrypt.compare\<close> is a function of the password and the hash. The \<^verbatim>\<open>AVATARS\<close>
  table holds emoji, whose code units are not \<^typ>\<open>char\<close>s, so it is taken from outside
  too. Nothing is assumed of any of the three.
\<close>

record lib =
  bcrypt_hash :: "string \<Rightarrow> string \<Rightarrow> string"
  bcrypt_compare :: "string \<Rightarrow> string \<Rightarrow> bool"
  AVATARS :: "string list"

text \<open>
  The readings one handler run takes from its environment: the salt, the successive
  \<^verbatim>\<open>generateCode\<close> draws, the \<^verbatim>\<open>randomUUID()\<close> results, the indices
  \<^verbatim>\<open>Math.floor(Math.random() * items.length)\<close> of \<^verbatim>\<open>pickRandom\<close>, and the \<^verbatim>\<open>Date.now()\<close>
  readings (\<open>tLoop e i\<close> is the reading inside the \<open>i\<close>-th round of the disconnect loop).
\<close>

record env =
  salt :: string
  codeDraws :: "string list"
  uuidClient :: string
  uuidMember :: string
  uuidStroke :: string
  pickAdjective :: nat
  pickNoun :: nat
  pickAvatar :: nat
  tCreated :: int
  tActive :: int
  tNow :: int
  tStamp :: int
  tLoop :: "nat \<Rightarrow> int"

subsection \<open>Profile normalizer\<close>

definition ADJECTIVES :: "string list" where
  "ADJECTIVES = [''Agile'', ''Bold'', ''Calm'', ''Daring'', ''Eager'', ''Fierce'', ''Gentle'',
     ''Lively'', ''Mighty'', ''Nimble'', ''Quick'', ''Rapid'', ''Serene'', ''Swift'', ''Vivid'']"

definition NOUNS :: "string list" where
  "NOUNS = [''Artist'', ''Brush'', ''Canvas'', ''Creator'', ''Designer'', ''Explorer'',
     ''Maker'', ''Painter'', ''Sketcher'', ''Visionary'']"

text \<open>\<^verbatim>\<open>items[i] ?? items[0] ?? ""\<close>, with \<open>i\<close> the drawn index.\<close>

definition pickRandom :: "string list \<Rightarrow> nat \<Rightarrow> string" where
  "pickRandom items i =
     (if i < length items then items ! i
      else (case items of [] \<Rightarrow> [] | x # _ \<Rightarrow> x))"

definition is_break :: "char \<Rightarrow> bool" where
  "is_break ch = ((of_char ch :: nat) \<in> {13, 10, 9})"

text \<open>\<^verbatim>\<open>s.replace(/[\r\n\t]+/g, " ")\<close>: every maximal run of breaks becomes one space.\<close>

function collapseBreaks :: "string \<Rightarrow> string" where
  "collapseBreaks [] = []"
| "collapseBreaks (ch # cs) =
     (if is_break ch then CHR '' '' # collapseBreaks (dropWhile is_break cs)
      else ch # collapseBreaks cs)"
  by pat_completeness auto
termination
  by (relation "measure length") (auto simp: length_dropWhile_le less_Suc_eq_le)

definition sanitizeClientId :: "string option \<Rightarrow> string \<Rightarrow> string" where
  "sanitizeClientId v uuid =
     (let trimmed = (case v of Some s \<Rightarrow> trim s | None \<Rightarrow> [])
      in if length trimmed \<ge> 6 then slice0 64 trimmed else uuid)"

definition sanitizeDisplayName :: "string option \<Rightarrow> nat \<Rightarrow> nat \<Rightarrow> string" where
  "sanitizeDisplayName v i j =
     (let fallback = pickRandom ADJECTIVES i @ '' '' @ pickRandom NOUNS j
      in case v of
           Some s \<Rightarrow>
             (let trimmed = collapseBreaks (trim s)
              in if length trimmed \<ge> 2 then slice0 60 trimmed else fallback)
         | None \<Rightarrow> fallback)"

definition sanitizeAvatar :: "string list \<Rightarrow> string option \<Rightarrow> nat \<Rightarrow> string" where
  "sanitizeAvatar avatars v i =
     (case v of
        Some s \<Rightarrow> if length (trim s) > 0 then slice0 4 (trim s) else pickRandom avatars i
      | None \<Rightarrow> pickRandom avatars i)"

record profilePayload =
  pp_clientId :: "string option"
  pp_displayName :: "string option"
  pp_avatar :: "string option"

record profile =
  n_clientId :: string
  n_displayName :: string
  n_avatar :: string

text \<open>\<^verbatim>\<open>profile?.clientId\<close> and its siblings are \<^verbatim>\<open>undefined\<close> when there is no profile.\<close>

definition buildProfile :: "lib \<Rightarrow> env \<Rightarrow> profilePayload option \<Rightarrow> profile" where
  "buildProfile L e pr =
     \<lparr> n_clientId = sanitizeClientId (Option.bind pr pp_clientId) (uuidClient e),
       n_displayName =
         sanitizeDisplayName (Option.bind pr pp_displayName) (pickAdjective e) (pickNoun e),
       n_avatar = sanitizeAvatar (AVATARS L) (Option.bind pr pp_avatar) (pickAvatar e) \<rparr>"

definition toSnapshot :: "member option \<Rightarrow> memberSnapshot option" where
  "toSnapshot m = (case m of None \<Rightarrow> None | Some x \<Rightarrow> Some (toMemberSnapshot x))"

subsection \<open>What a handler does to the outside\<close>

datatype outbound =
    RoomMembers "memberSnapshot list"
  | CanvasStroke stroke
  | CanvasUndo string
  | CanvasSnapshot string
  | CanvasHistory "stroke list"

datatype ack =
    AckOk string bool "memberSnapshot list" "memberSnapshot option"
  | AckFail string

text \<open>
  \<open>ToRoom c m\<close> is \<^verbatim>\<open>io.to(c).emit(m)\<close>, \<open>ToSocket s m\<close> is \<^verbatim>\<open>socket.emit(m)\<close> on the
  connection \<open>s\<close>, \<open>Subscribe s c\<close> is \<^verbatim>\<open>socket.join(c)\<close>, \<open>Callback s a\<close> is the
  acknowledgment and \<open>Respond c\<close> the JSON answer of the REST endpoint. A handler returns the
  new store and its effects in the order the code performs them. Logging is left out.
\<close>

datatype effect =
    ToRoom string outbound
  | ToSocket string outbound
  | Subscribe string string
  | Callback string ack
  | Respond string

definition emitMembers :: "store \<Rightarrow> string \<Rightarrow> effect" where
  "emitMembers st c = ToRoom c (RoomMembers (getMembersSnapshot st c))"

text \<open>
  \<^verbatim>\<open>roomStore.getRoom(v)\<close> with an untyped argument: the keys of the map are strings, so
  only a string finds a room.
\<close>

fun getRoomOf :: "store \<Rightarrow> jsval \<Rightarrow> (string \<times> room) option" where
  "getRoomOf st (JStr c) = (case getRoom st c of None \<Rightarrow> None | Some r \<Rightarrow> Some (c, r))"
| "getRoomOf st v = None"

subsection \<open>create-room and join-room\<close>

text \<open>
  Each handler is modelled as one uninterrupted run: the only suspension points of the
  code are the \<^verbatim>\<open>await\<close> of the password hash in create-room and of the password check
  in join-room, both before the store is changed. \<open>None\<close> is a run of \<^verbatim>\<open>createRoom\<close>
  whose loop has not ended within the draws.
\<close>

definition create_room ::
  "lib \<Rightarrow> env \<Rightarrow> string \<Rightarrow> string option \<Rightarrow> profilePayload option \<Rightarrow> store
     \<Rightarrow> (store \<times> effect list) option" where
  "create_room L e sock password pr st =
     (let pwHash = (case password of
                      None \<Rightarrow> None
                    | Some p \<Rightarrow> if p \<noteq> [] then Some (bcrypt_hash L p (salt e)) else None)
      in case createRoom st pwHash (codeDraws e) (tCreated e) (tActive e) of
           None \<Rightarrow> None
         | Some (r, st1) \<Rightarrow>
             let np = buildProfile L e pr;
                 (m, st2) = upsertMember st1 (code r)
                    \<lparr> u_socketId = sock, u_clientId = n_clientId np,
                      u_displayName = n_displayName np, u_avatar = n_avatar np,
                      u_isHost = Some True \<rparr> (tNow e) (uuidMember e)
             in Some (st2,
                  [Subscribe sock (code r),
                   emitMembers st2 (code r),
                   Callback sock
                     (AckOk (code r) True (getMembersSnapshot st2 (code r)) (toSnapshot m))]))"

text \<open>
  The password gate of join-room: \<^verbatim>\<open>if (room.passwordHash)\<close> holds for a hash that is
  present and not the empty string, and \<^verbatim>\<open>password || ""\<close> is the empty string when the
  password is omitted.
\<close>

definition passwordRejected :: "lib \<Rightarrow> room \<Rightarrow> string option \<Rightarrow> bool" where
  "passwordRejected L r password =
     (case passwordHash r of
        None \<Rightarrow> False
      | Some h \<Rightarrow>
          if h \<noteq> []
          then \<not> bcrypt_compare L (case password of None \<Rightarrow> [] | Some p \<Rightarrow> p) h
          else False)"

text \<open>
  In \<open>join_room\<close> the variable \<^verbatim>\<open>room\<close> is the object read at the start; \<^verbatim>\<open>upsertMember\<close>
  changes its \<^verbatim>\<open>members\<close> and \<^verbatim>\<open>lastActive\<close> only, so its \<^verbatim>\<open>canvasData\<close> and \<^verbatim>\<open>history\<close> are
  read from \<open>r\<close>.
\<close>

definition join_room ::
  "lib \<Rightarrow> env \<Rightarrow> string \<Rightarrow> string \<Rightarrow> string option \<Rightarrow> profilePayload option \<Rightarrow> store
     \<Rightarrow> store \<times> effect list" where
  "join_room L e sock c password pr st =
     (case getRoom st c of
        None \<Rightarrow> (st, [Callback sock (AckFail ''Room not found'')])
      | Some r \<Rightarrow>
          if passwordRejected L r password
          then (st, [Callback sock (AckFail ''Invalid password'')])
          else
            let np = buildProfile L e pr;
                (m, st1) = upsertMember st c
                   \<lparr> u_socketId = sock, u_clientId = n_clientId np,
                     u_displayName = n_displayName np, u_avatar = n_avatar np,
                     u_isHost = Some False \<rparr> (tNow e) (uuidMember e)
            in (st1,
                [Subscribe sock c, emitMembers st1 c]
                @ (case canvasData r of
                     Some d \<Rightarrow>
                       if d \<noteq> [] then [ToSocket sock (CanvasSnapshot d)]
                       else if length (history r) > 0
                       then [ToSocket sock (CanvasHistory (history r))] else []
                   | None \<Rightarrow>
                       if length (history r) > 0
                       then [ToSocket sock (CanvasHistory (history r))] else [])
                @ [Callback sock
                     (AckOk c (case m of None \<Rightarrow> False | Some x \<Rightarrow> isHost x)
                        (getMembersSnapshot st1 c) (toSnapshot m))]))"

subsection \<open>canvas:stroke\<close>

definition validPoint :: "jsval \<Rightarrow> bool" where
  "validPoint pt =
     (truthy pt \<and> is_number (getProp pt ''x'') \<and> is_number (getProp pt ''y'')
      \<and> is_finite_number (getProp pt ''x'') \<and> is_finite_number (getProp pt ''y''))"

definition isValidStroke :: "jsval \<Rightarrow> bool" where
  "isValidStroke stroke =
     (if \<not> truthy stroke then False
      else if \<not> is_string (getProp stroke ''color'') then False
      else
        let hasWidth = is_number (getProp stroke ''width'');
            hasSize = is_number (getProp stroke ''size'')
        in if \<not> hasWidth \<and> \<not> hasSize then False
           else (case getProp stroke ''points'' of
                   JArr pts \<Rightarrow> list_all validPoint pts
                 | _ \<Rightarrow> False))"

definition normalizePoint :: "jsval \<Rightarrow> point" where
  "normalizePoint pt =
     \<lparr> p_x = getProp pt ''x'', p_y = getProp pt ''y'',
       p_pressure = (if is_number (getProp pt ''pressure'')
                        \<and> is_finite_number (getProp pt ''pressure'')
                     then getProp pt ''pressure'' else JNum (Fin 0.5)) \<rparr>"

text \<open>
  The elements of \<^verbatim>\<open>stroke.points\<close>; the handler maps over them only after
  \<open>isValidStroke\<close> has found an array there.
\<close>

fun items :: "jsval \<Rightarrow> jsval list" where
  "items (JArr xs) = xs"
| "items v = []"

text \<open>The \<^verbatim>\<open>normalized\<close> object; \<open>uuid\<close> is \<^verbatim>\<open>randomUUID()\<close> and \<open>now\<close> is \<^verbatim>\<open>Date.now()\<close>.\<close>

definition normalizeStroke :: "jsval \<Rightarrow> string \<Rightarrow> int \<Rightarrow> stroke" where
  "normalizeStroke stroke uuid now =
     \<lparr> s_id = (case getProp stroke ''id'' of
                 JStr s \<Rightarrow> if length (trim s) > 0 then s else slice0 12 uuid
               | _ \<Rightarrow> slice0 12 uuid),
       s_tool = (if getProp stroke ''tool'' = JStr ''eraser'' then Eraser else Pen),
       s_color = getProp stroke ''color'',
       s_width = (if is_number (getProp stroke ''width'') then getProp stroke ''width''
                  else getProp stroke ''size''),
       s_points = map normalizePoint (items (getProp stroke ''points'')),
       s_createdAt = js_or (getProp stroke ''createdAt'') (JNum (Fin (of_int now))) \<rparr>"

text \<open>\<^verbatim>\<open>history.push(n)\<close>, then \<^verbatim>\<open>history.shift()\<close> when the length has passed 5000.\<close>

definition pushCapped :: "stroke list \<Rightarrow> stroke \<Rightarrow> stroke list" where
  "pushCapped h n = (let h1 = h @ [n] in if length h1 > 5000 then tl h1 else h1)"

definition canvas_stroke ::
  "env \<Rightarrow> string \<Rightarrow> jsval \<Rightarrow> jsval \<Rightarrow> jsval \<Rightarrow> store \<Rightarrow> store \<times> effect list" where
  "canvas_stroke e sock codeParam roomCode stroke st =
     (let cv = js_or codeParam roomCode
      in if \<not> truthy cv then (st, [])
         else (case getRoomOf st cv of
                 None \<Rightarrow> (st, [])
               | Some (c, r) \<Rightarrow>
                   if \<not> isValidStroke stroke then (st, [])
                   else
                     let normalized = normalizeStroke stroke (uuidStroke e) (tStamp e)
                     in (AList.update c
                           (r \<lparr> history := pushCapped (history r) normalized,
                                lastActive := tNow e \<rparr>) st,
                         [ToRoom c (CanvasStroke normalized)])))"

subsection \<open>canvas:undo, canvas:request-snapshot, canvas:save-snapshot\<close>

definition canvas_undo ::
  "env \<Rightarrow> string \<Rightarrow> jsval \<Rightarrow> jsval \<Rightarrow> jsval \<Rightarrow> store \<Rightarrow> store \<times> effect list" where
  "canvas_undo e sock codeParam roomCode strokeId st =
     (let cv = js_or codeParam roomCode
      in case strokeId of
           JStr sid \<Rightarrow>
             if \<not> truthy cv then (st, [])
             else (case getRoomOf st cv of
                     None \<Rightarrow> (st, [])
                   | Some (c, r) \<Rightarrow>
                       (case findIndex (\<lambda>entry. s_id entry = sid) (history r) of
                          None \<Rightarrow> (st, [])
                        | Some index \<Rightarrow>
                            (AList.update c
                               (r \<lparr> history := splice1 index (history r),
                                    lastActive := tNow e,
                                    canvasData :=
                                      (case canvasData r of
                                         None \<Rightarrow> None
                                       | Some d \<Rightarrow>
                                           if startsWith (trim d) ''{'' then None
                                           else Some d) \<rparr>) st,
                             [ToRoom c (CanvasUndo sid)])))
         | _ \<Rightarrow> (st, []))"

definition canvas_request_snapshot ::
  "string \<Rightarrow> jsval \<Rightarrow> jsval \<Rightarrow> store \<Rightarrow> store \<times> effect list" where
  "canvas_request_snapshot sock codeParam roomCode st =
     (case getRoomOf st (js_or codeParam roomCode) of
        None \<Rightarrow> (st, [])
      | Some (c, r) \<Rightarrow>
          (st,
           case canvasData r of
             Some d \<Rightarrow>
               if d \<noteq> [] then [ToSocket sock (CanvasSnapshot d)]
               else if length (history r) > 0
               then [ToSocket sock (CanvasHistory (history r))] else []
           | None \<Rightarrow>
               if length (history r) > 0
               then [ToSocket sock (CanvasHistory (history r))] else []))"

definition canvas_save_snapshot ::
  "env \<Rightarrow> string \<Rightarrow> jsval \<Rightarrow> jsval \<Rightarrow> jsval \<Rightarrow> store \<Rightarrow> store \<times> effect list" where
  "canvas_save_snapshot e sock codeParam roomCode snapshot st =
     (case getRoomOf st (js_or codeParam roomCode) of
        None \<Rightarrow> (st, [])
      | Some (c, r) \<Rightarrow>
          (case snapshot of
             JStr s \<Rightarrow>
               let trimmed = trim s
               in if startsWith trimmed ''{'' \<or> startsWith trimmed ''data:image/''
                  then (AList.update c
                          (r \<lparr> canvasData := Some trimmed, lastActive := tNow e \<rparr>) st, [])
                  else (st, [])
           | _ \<Rightarrow> (st, [])))"

subsection \<open>disconnect\<close>

text \<open>
  The loop over \<^verbatim>\<open>roomStore.listRooms()\<close>; no key is added or deleted while it runs, so
  it visits the codes the map held at its start, in order.
\<close>

fun disconnectLoop ::
  "string \<Rightarrow> (nat \<Rightarrow> int) \<Rightarrow> nat \<Rightarrow> string list \<Rightarrow> store \<Rightarrow> store \<times> effect list" where
  "disconnectLoop sock clock i [] st = (st, [])"
| "disconnectLoop sock clock i (c # cs) st =
     (case removeMemberBySocketId st c sock (clock i) of
        (None, st1) \<Rightarrow> disconnectLoop sock clock (Suc i) cs st1
      | (Some removed, st1) \<Rightarrow>
          (case disconnectLoop sock clock (Suc i) cs st1 of
             (st2, out) \<Rightarrow> (st2, emitMembers st1 c # out)))"

definition disconnect :: "env \<Rightarrow> string \<Rightarrow> store \<Rightarrow> store \<times> effect list" where
  "disconnect e sock st = disconnectLoop sock (tLoop e) 0 (map fst (listRooms st)) st"

subsection \<open>The REST endpoint and the cleanup timer (\<^verbatim>\<open>server/src/server.ts\<close>)\<close>

definition rest_create_room :: "env \<Rightarrow> store \<Rightarrow> (store \<times> effect list) option" where
  "rest_create_room e st =
     (case createRoom st None (codeDraws e) (tCreated e) (tActive e) of
        None \<Rightarrow> None
      | Some (r, st1) \<Rightarrow> Some (st1, [Respond (code r)]))"

definition cleanup_tick :: "env \<Rightarrow> store \<Rightarrow> store \<times> effect list" where
  "cleanup_tick e st = (cleanupInactiveRooms st (60 * 60 * 1000) (tNow e), [])"

subsection \<open>Events and reachable stores\<close>

text \<open>
  One event per handler; the first argument of a socket event is the id of the
  connection the handler is bound to.
\<close>

datatype event =
    CreateRoomEv string "string option" "profilePayload option"
  | JoinRoomEv string string "string option" "profilePayload option"
  | StrokeEv string jsval jsval jsval
  | UndoEv string jsval jsval jsval
  | RequestSnapshotEv string jsval jsval
  | SaveSnapshotEv string jsval jsval jsval
  | DisconnectEv string
  | RestCreateRoomEv
  | CleanupEv

fun handle :: "lib \<Rightarrow> env \<Rightarrow> event \<Rightarrow> store \<Rightarrow> (store \<times> effect list) option" where
  "handle L e (CreateRoomEv sock password pr) st = create_room L e sock password pr st"
| "handle L e (JoinRoomEv sock c password pr) st = Some (join_room L e sock c password pr st)"
| "handle L e (StrokeEv sock cp rc stroke) st = Some (canvas_stroke e sock cp rc stroke st)"
| "handle L e (UndoEv sock cp rc strokeId) st = Some (canvas_undo e sock cp rc strokeId st)"
| "handle L e (RequestSnapshotEv sock cp rc) st = Some (canvas_request_snapshot sock cp rc st)"
| "handle L e (SaveSnapshotEv sock cp rc snapshot) st =
     Some (canvas_save_snapshot e sock cp rc snapshot st)"
| "handle L e (DisconnectEv sock) st = Some (disconnect e sock st)"
| "handle L e RestCreateRoomEv st = rest_create_room e st"
| "handle L e CleanupEv st = Some (cleanup_tick e st)"

text \<open>
  The stores the server can be in: it starts with no room, and every step is one handler
  run, on any payload and any readings of the environment.
\<close>

inductive reachable :: "lib \<Rightarrow> store \<Rightarrow> bool" for L :: lib where
  start: "reachable L []"
| step: "reachable L st \<Longrightarrow> handle L e ev st = Some (st', out) \<Longrightarrow> reachable L st'"

text \<open>A run of the server on a list of events, each with its readings.\<close>

fun run :: "lib \<Rightarrow> (env \<times> event) list \<Rightarrow> store \<Rightarrow> (store \<times> effect list) option" where
  "run L [] st = Some (st, [])"
| "run L ((e, ev) # rest) st =
     (case handle L e ev st of
        None \<Rightarrow> None
      | Some (st1, out1) \<Rightarrow>
          (case run L rest st1 of
             None \<Rightarrow> None
           | Some (st2, out2) \<Rightarrow> Some (st2, out1 @ out2)))"

subsection \<open>Concrete inputs\<close>

text \<open>
  A library and readings to run the handlers on: a hash that writes the salt before the
  password, and a clock that reads \<open>t\<close> (and \<open>t + i\<close> in the disconnect loop).
\<close>

definition demoLib :: lib where
  "demoLib = \<lparr> bcrypt_hash = (\<lambda>p s. s @ p), bcrypt_compare = (\<lambda>p h. h = ''$2b$'' @ p),
               AVATARS = [''*''] \<rparr>"

definition demoEnv :: "string \<Rightarrow> string \<Rightarrow> int \<Rightarrow> env" where
  "demoEnv c u t =
     \<lparr> salt = ''$2b$'', codeDraws = [c], uuidClient = ''client-'' @ u,
       uuidMember = ''member-'' @ u, uuidStroke = ''stroke-'' @ u,
       pickAdjective = 0, pickNoun = 0, pickAvatar = 0,
       tCreated = t, tActive = t, tNow = t, tStamp = t, tLoop = (\<lambda>i. t + int i) \<rparr>"

text \<open>The stroke of the spec's scenario, and the same payload with no points.\<close>

definition demoStroke :: jsval where
  "demoStroke =
     JObj [(''id'', JStr ''s1''), (''tool'', JStr ''pen''), (''color'', JStr ''#fff''),
           (''width'', JNum (Fin 4)),
           (''points'', JArr [JObj [(''x'', JNum (Fin 0)), (''y'', JNum (Fin 0))],
                              JObj [(''x'', JNum (Fin 10)), (''y'', JNum (Fin 10))]])]"

definition emptyStroke :: jsval where
  "emptyStroke =
     JObj [(''id'', JStr ''s2''), (''tool'', JStr ''pen''), (''color'', JStr ''#fff''),
           (''width'', JNum (Fin 4)), (''points'', JArr [])]"

text \<open>
  A password-protected room is created by \<open>s1\<close>, joined by \<open>s2\<close> and \<open>s3\<close> at the same
  clock reading, and \<open>s1\<close> draws the stroke.
\<close>

definition demoInputs :: "(env \<times> event) list" where
  "demoInputs =
     [(demoEnv ''abc123'' ''1'' 100, CreateRoomEv ''s1'' (Some ''secret'') None),
      (demoEnv ''abc123'' ''2'' 250, JoinRoomEv ''s2'' ''abc123'' (Some ''secret'') None),
      (demoEnv ''abc123'' ''3'' 250, JoinRoomEv ''s3'' ''abc123'' (Some ''secret'') None),
      (demoEnv ''abc123'' ''4'' 400, StrokeEv ''s1'' JUndefined (JStr ''abc123'') demoStroke)]"

definition demoMember :: "string \<Rightarrow> string \<Rightarrow> int \<Rightarrow> bool \<Rightarrow> member" where
  "demoMember sid u t h =
     \<lparr> memberId = ''member-'' @ u, socketId = sid, clientId = ''client-'' @ u,
       displayName = ''Agile Artist'', avatar = ''*'', isHost = h, joinedAt = t,
       status = Online, lastSeen = t \<rparr>"

definition demoNormalized :: stroke where
  "demoNormalized =
     \<lparr> s_id = ''s1'', s_tool = Pen, s_color = JStr ''#fff'', s_width = JNum (Fin 4),
       s_points = [\<lparr> p_x = JNum (Fin 0), p_y = JNum (Fin 0), p_pressure = JNum (Fin 0.5) \<rparr>,
                   \<lparr> p_x = JNum (Fin 10), p_y = JNum (Fin 10), p_pressure = JNum (Fin 0.5) \<rparr>],
       s_createdAt = JNum (Fin 400) \<rparr>"

definition demoRoom :: room where
  "demoRoom =
     \<lparr> code = ''abc123'', passwordHash = Some ''$2b$secret'',
       members = [demoMember ''s1'' ''1'' 100 True, demoMember ''s2'' ''2'' 250 False,
                  demoMember ''s3'' ''3'' 250 False],
       createdAt = 100, lastActive = 400, history = [demoNormalized], canvasData = None,
       diagramData = None \<rparr>"

definition demoStore :: store where
  "demoStore = [(''abc123'', demoRoom)]"

text \<open>A room is created by \<open>s1\<close>, who then disconnects; \<open>s2\<close> joins the emptied room.\<close>

definition emptiedInputs :: "(env \<times> event) list" where
  "emptiedInputs =
     [(demoEnv ''abc123'' ''1'' 100, CreateRoomEv ''s1'' None None),
      (demoEnv ''abc123'' ''2'' 200, DisconnectEv ''s1'')]"

definition emptiedRoom :: room where
  "emptiedRoom =
     \<lparr> code = ''abc123'', passwordHash = None, members = [], createdAt = 100,
       lastActive = 200, history = [], canvasData = None, diagramData = None \<rparr>"

definition emptiedStore :: store where
  "emptiedStore = [(''abc123'', emptiedRoom)]"

definition rejoinInputs :: "(env \<times> event) list" where
  "rejoinInputs =
     emptiedInputs @ [(demoEnv ''abc123'' ''3'' 300, JoinRoomEv ''s2'' ''abc123'' None None)]"

text \<open>The flags of a store: for every room, in order, its code and its members' \<^verbatim>\<open>isHost\<close>.\<close>

definition hostFlags :: "store \<Rightarrow> (string \<times> bool list) list" where
  "hostFlags st = map (\<lambda>(c, r). (c, map isHost (members r))) st"

text \<open>What the stroke handler makes of \<open>emptyStroke\<close> at clock reading 500.\<close>

definition emptyNormalized :: stroke where
  "emptyNormalized =
     \<lparr> s_id = ''s2'', s_tool = Pen, s_color = JStr ''#fff'', s_width = JNum (Fin 4),
       s_points = [], s_createdAt = JNum (Fin 500) \<rparr>"

text \<open>The payload the join-room of \<open>s2\<close> passes to \<open>upsertMember\<close>.\<close>

definition joinPayload :: upsertPayload where
  "joinPayload =
     \<lparr> u_socketId = ''s2'', u_clientId = ''client-3'', u_displayName = ''Agile Artist'',
       u_avatar = ''*'', u_isHost = Some False \<rparr>"

text \<open>A room whose history is at its cap.\<close>

definition fullRoom :: room where
  "fullRoom = demoRoom \<lparr> history := replicate 5000 demoNormalized \<rparr>"

definition fullStore :: store where
  "fullStore = [(''abc123'', fullRoom)]"

text \<open>The demo room after \<open>s1\<close> has saved a raster snapshot.\<close>

definition snapInputs :: "(env \<times> event) list" where
  "snapInputs =
     demoInputs @
     [(demoEnv ''abc123'' ''5'' 450,
       SaveSnapshotEv ''s1'' JUndefined (JStr ''abc123'') (JStr '' data:image/png;base64,AAAA ''))]"

definition snapRoom :: room where
  "snapRoom = demoRoom \<lparr> lastActive := 450, canvasData := Some ''data:image/png;base64,AAAA'' \<rparr>"

definition snapStore :: store where
  "snapStore = [(''abc123'', snapRoom)]"

text \<open>The demo room after its host \<open>s1\<close> has been removed at clock reading 500.\<close>

definition promotedRoom :: room where
  "promotedRoom =
     demoRoom \<lparr> members := [demoMember ''s2'' ''2'' 250 True, demoMember ''s3'' ''3'' 250 False],
                lastActive := 500 \<rparr>"

definition promotedStore :: store where
  "promotedStore = [(''abc123'', promotedRoom)]"





section \<open>Recovery state, as the specification words it\<close>

text \<open>
  The specification of join-room and request-snapshot: the connection is sent the stored
  snapshot if present, else the raw history if non-empty, else nothing.
\<close>

definition specRecovery :: "room \<Rightarrow> outbound list" where
  "specRecovery r =
     (case canvasData r of
        Some d \<Rightarrow> [CanvasSnapshot d]
      | None \<Rightarrow> if history r \<noteq> [] then [CanvasHistory (history r)] else [])"

text \<open>The \<^verbatim>\<open>socket.emit\<close> effects of a handler run, each with its connection.\<close>

fun unicasts :: "effect list \<Rightarrow> (string \<times> outbound) list" where
  "unicasts [] = []"
| "unicasts (ToSocket s m # es) = (s, m) # unicasts es"
| "unicasts (x # es) = unicasts es"





section \<open>Invariants of the store\<close>

definition atMostOneHost :: "member list \<Rightarrow> bool" where
  "atMostOneHost ms = (length (filter isHost ms) \<le> 1)"

text \<open>
  What holds of every room of a reachable store: the history is within its cap, a stored
  snapshot is not the empty string, and no two members are host.
\<close>

definition roomOk :: "room \<Rightarrow> bool" where
  "roomOk r = (length (history r) \<le> 5000 \<and> canvasData r \<noteq> Some [] \<and> atMostOneHost (members r))"

definition storeOk :: "store \<Rightarrow> bool" where
  "storeOk st = list_all (\<lambda>(c, r). roomOk r) st"

section \<open>Properties\<close>

subsection \<open>Lists\<close>

lemma findIndex_Some:
  "findIndex P xs = Some i \<Longrightarrow> i < length xs \<and> P (xs ! i) \<and> (\<forall>j<i. \<not> P (xs ! j))"
proof (induction xs arbitrary: i)
  case Nil
  then show ?case by simp
next
  case (Cons x xs)
  show ?case
  proof (cases "P x")
    case True
    with Cons.prems show ?thesis by simp
  next
    case False
    with Cons.prems obtain k where k: "findIndex P xs = Some k" "i = Suc k"
      by auto
    from Cons.IH [OF k(1)] False k(2) show ?thesis
      by (auto simp: nth_Cons split: nat.splits)
  qed
qed

lemma findIndex_None: "findIndex P xs = None \<longleftrightarrow> (\<forall>x\<in>set xs. \<not> P x)"
  by (induction xs) auto

lemma foldl_min_index:
  fixes k :: "nat \<Rightarrow> int"
  defines "f \<equiv> \<lambda>cand cur. if k cur < k cand then cur else cand"
  shows "foldl f 0 [0..<Suc n] \<le> n
       \<and> (\<forall>j\<le>n. k (foldl f 0 [0..<Suc n]) \<le> k j)
       \<and> (\<forall>j<foldl f 0 [0..<Suc n]. k (foldl f 0 [0..<Suc n]) < k j)"
proof (induction n)
  case 0
  show ?case by (simp add: f_def)
next
  case (Suc n)
  let ?g = "foldl f 0 [0..<Suc n]"
  have step: "foldl f 0 [0..<Suc (Suc n)] = f ?g (Suc n)"
    by simp
  show ?case
  proof (cases "k (Suc n) < k ?g")
    case True
    then have eq: "foldl f 0 [0..<Suc (Suc n)] = Suc n"
      unfolding step by (simp add: f_def)
    have "\<forall>j\<le>n. k (Suc n) < k j"
      using Suc.IH True by (meson le_less_trans less_le_trans not_le order.strict_trans1)
    then show ?thesis
      unfolding eq using le_Suc_eq less_Suc_eq_le by auto
  next
    case False
    then have eq: "foldl f 0 [0..<Suc (Suc n)] = ?g"
      unfolding step by (simp add: f_def)
    show ?thesis
      unfolding eq using Suc.IH False by (auto simp: le_Suc_eq)
  qed
qed

lemma nextHostIndex_first_min:
  assumes "ms \<noteq> []"
  shows "nextHostIndex ms < length ms
       \<and> (\<forall>j<length ms. joinedAt (ms ! nextHostIndex ms) \<le> joinedAt (ms ! j))
       \<and> (\<forall>j<nextHostIndex ms. joinedAt (ms ! nextHostIndex ms) < joinedAt (ms ! j))"
proof -
  from assms obtain n where n: "length ms = Suc n"
    by (cases ms) auto
  show ?thesis
    using foldl_min_index [of "\<lambda>i. joinedAt (ms ! i)" n]
    unfolding nextHostIndex_def n by (simp add: less_Suc_eq_le)
qed

subsection \<open>Counting hosts\<close>

lemma hosts_splice1:
  fixes ms :: "member list"
  assumes i: "i < length ms"
  shows "length (filter isHost ms) =
     length (filter isHost (splice1 i ms)) + (if isHost (ms ! i) then 1 else 0)"
proof -
  have "filter isHost ms = filter isHost (take i ms @ ms ! i # drop (Suc i) ms)"
    by (rule arg_cong [OF id_take_nth_drop [OF i]])
  then show ?thesis
    by (simp add: splice1_def)
qed

lemma hosts_same_flags:
  fixes ms ms' :: "member list"
  assumes eq: "map isHost ms' = map isHost ms"
  shows "length (filter isHost ms') = length (filter isHost ms)"
proof -
  have flags: "length (filter isHost xs) = length (filter id (map isHost xs))"
    for xs :: "member list"
    by (simp add: comp_def)
  show ?thesis
    by (simp only: flags [of ms'] flags [of ms] eq)
qed

lemma hosts_none:
  fixes ms :: "member list"
  shows "length (filter isHost ms) = 0 \<longleftrightarrow> (\<forall>m\<in>set ms. \<not> isHost m)"
  by (simp add: filter_empty_conv)

lemma hosts_promote:
  fixes ms :: "member list"
  assumes "\<forall>m\<in>set ms. \<not> isHost m" and "k < length ms"
  shows "length (filter isHost (ms[k := (ms ! k) \<lparr> isHost := True \<rparr>])) = 1"
proof -
  let ?m = "(ms ! k) \<lparr> isHost := True \<rparr>"
  have split: "ms[k := ?m] = take k ms @ ?m # drop (Suc k) ms"
    using assms(2) by (simp add: upd_conv_take_nth_drop)
  have "filter isHost (take k ms) = []" and "filter isHost (drop (Suc k) ms) = []"
    using assms(1) by (auto simp: filter_empty_conv dest: in_set_takeD in_set_dropD)
  then show ?thesis
    unfolding split by simp
qed

subsection \<open>The invariant under the operations of the store\<close>

lemma storeOk_update: "storeOk st \<Longrightarrow> roomOk r \<Longrightarrow> storeOk (AList.update c r st)"
  by (induction st) (auto simp: storeOk_def)

lemma storeOk_getRoom: "storeOk st \<Longrightarrow> getRoom st c = Some r \<Longrightarrow> roomOk r"
  by (auto simp: storeOk_def getRoom_def list_all_iff dest: map_of_SomeD)

lemma storeOk_filter: "storeOk st \<Longrightarrow> storeOk (filter P st)"
  by (simp add: storeOk_def list_all_iff)

lemma upsertMember_new:
  assumes "getRoom st c = Some r"
    and "findIndex (\<lambda>m. socketId m = u_socketId payload) (members r) = None"
  shows "upsertMember st c payload now uuid =
     (Some \<lparr> memberId = uuid, socketId = u_socketId payload, clientId = u_clientId payload,
             displayName = u_displayName payload, avatar = u_avatar payload,
             isHost = (case u_isHost payload of Some b \<Rightarrow> b
                       | None \<Rightarrow> \<not> list_ex isHost (members r)),
             joinedAt = now, status = Online, lastSeen = now \<rparr>,
      AList.update c
        (r \<lparr> members := members r @
               [\<lparr> memberId = uuid, socketId = u_socketId payload,
                  clientId = u_clientId payload, displayName = u_displayName payload,
                  avatar = u_avatar payload,
                  isHost = (case u_isHost payload of Some b \<Rightarrow> b
                            | None \<Rightarrow> \<not> list_ex isHost (members r)),
                  joinedAt = now, status = Online, lastSeen = now \<rparr>],
             lastActive := now \<rparr>) st)"
  using assms by (simp add: upsertMember_def Let_def)

lemma upsertMember_existing:
  assumes "getRoom st c = Some r"
    and "findIndex (\<lambda>m. socketId m = u_socketId payload) (members r) = Some i"
  shows "upsertMember st c payload now uuid =
     (Some ((members r ! i)
        \<lparr> displayName := u_displayName payload, avatar := u_avatar payload,
          isHost := (case u_isHost payload of Some b \<Rightarrow> b \<or> isHost (members r ! i)
                     | None \<Rightarrow> isHost (members r ! i)),
          status := Online, lastSeen := now \<rparr>),
      AList.update c
        (r \<lparr> members := (members r)
               [i := (members r ! i)
                  \<lparr> displayName := u_displayName payload, avatar := u_avatar payload,
                    isHost := (case u_isHost payload of
                                 Some b \<Rightarrow> b \<or> isHost (members r ! i)
                               | None \<Rightarrow> isHost (members r ! i)),
                    status := Online, lastSeen := now \<rparr>],
             lastActive := now \<rparr>) st)"
  using assms by (simp add: upsertMember_def Let_def)

lemma roomOk_append_nonhost:
  assumes "roomOk r" and "\<not> isHost m"
  shows "roomOk (r \<lparr> members := members r @ [m], lastActive := t \<rparr>)"
  using assms by (simp add: roomOk_def atMostOneHost_def)

lemma roomOk_update_same_flag:
  assumes ok: "roomOk r" and i: "i < length (members r)"
    and flag: "isHost m = isHost (members r ! i)"
  shows "roomOk (r \<lparr> members := (members r)[i := m], lastActive := t \<rparr>)"
proof -
  have at_i: "map isHost (members r) ! i = isHost m"
    using i by (simp add: flag)
  have "(map isHost (members r))[i := isHost m] = map isHost (members r)"
    using list_update_id [of "map isHost (members r)" i] by (simp only: at_i)
  then have "map isHost ((members r)[i := m]) = map isHost (members r)"
    by (simp only: map_update)
  then have "length (filter isHost ((members r)[i := m])) = length (filter isHost (members r))"
    by (rule hosts_same_flags)
  then show ?thesis
    using ok by (simp add: roomOk_def atMostOneHost_def)
qed

lemma upsertMember_joiner_ok:
  assumes st: "storeOk st" and joiner: "u_isHost payload = Some False"
  shows "storeOk (snd (upsertMember st c payload now uuid))"
proof (cases "getRoom st c")
  case None
  then show ?thesis
    using st by (simp add: upsertMember_def)
next
  case (Some r)
  have ok: "roomOk r" by (rule storeOk_getRoom [OF st Some])
  show ?thesis
  proof (cases "findIndex (\<lambda>m. socketId m = u_socketId payload) (members r)")
    case None
    show ?thesis
      unfolding upsertMember_new [OF Some None] snd_conv
      by (rule storeOk_update [OF st], rule roomOk_append_nonhost [OF ok]) (simp add: joiner)
  next
    case found: (Some i)
    then have i: "i < length (members r)"
      by (simp add: findIndex_Some)
    show ?thesis
      unfolding upsertMember_existing [OF Some found] snd_conv
      by (rule storeOk_update [OF st], rule roomOk_update_same_flag [OF ok i]) (simp add: joiner)
  qed
qed

lemma removeMember_found:
  assumes "getRoom st c = Some r"
    and "findIndex (\<lambda>m. socketId m = sid) (members r) = Some i"
  shows "removeMemberBySocketId st c sid now =
     (Some (members r ! i),
      AList.update c
        (r \<lparr> members :=
               (if isHost (members r ! i) \<and> length (splice1 i (members r)) > 0
                then (splice1 i (members r))
                       [nextHostIndex (splice1 i (members r)) :=
                          (splice1 i (members r) ! nextHostIndex (splice1 i (members r)))
                            \<lparr> isHost := True \<rparr>]
                else splice1 i (members r)),
             lastActive := now \<rparr>) st)"
  using assms by (simp add: removeMemberBySocketId_def Let_def del: length_greater_0_conv)

lemma removeMember_ok:
  assumes "storeOk st"
  shows "storeOk (snd (removeMemberBySocketId st c sid now))"
proof (cases "getRoom st c")
  case None
  with assms show ?thesis by (simp add: removeMemberBySocketId_def)
next
  case (Some r)
  have ok: "roomOk r" by (rule storeOk_getRoom [OF assms(1) Some])
  show ?thesis
  proof (cases "findIndex (\<lambda>m. socketId m = sid) (members r)")
    case None
    with Some assms show ?thesis by (simp add: removeMemberBySocketId_def)
  next
    case (Some i)
    then have i: "i < length (members r)"
      by (simp add: findIndex_Some)
    let ?rest = "splice1 i (members r)"
    let ?rest' = "if isHost (members r ! i) \<and> length ?rest > 0
                  then ?rest[nextHostIndex ?rest := (?rest ! nextHostIndex ?rest) \<lparr> isHost := True \<rparr>]
                  else ?rest"
    have count: "length (filter isHost (members r)) =
        length (filter isHost ?rest) + (if isHost (members r ! i) then 1 else 0)"
      using hosts_splice1 [OF i] .
    have one: "length (filter isHost (members r)) \<le> 1"
      using ok by (simp add: roomOk_def atMostOneHost_def)
    have "atMostOneHost ?rest'"
    proof (cases "isHost (members r ! i) \<and> length ?rest > 0")
      case True
      then have "length (filter isHost ?rest) = 0"
        using count one by simp
      then have none: "\<forall>m\<in>set ?rest. \<not> isHost m"
        by (simp only: hosts_none)
      have "nextHostIndex ?rest < length ?rest"
        using True nextHostIndex_first_min [of ?rest] by auto
      from hosts_promote [OF none this] True show ?thesis
        by (simp add: atMostOneHost_def)
    next
      case False
      have "length (filter isHost ?rest) \<le> 1"
        using count one by simp
      with False show ?thesis
        by (simp only: atMostOneHost_def if_False)
    qed
    then have ok': "roomOk (r \<lparr> members := ?rest', lastActive := now \<rparr>)"
      using ok by (simp add: roomOk_def)
    show ?thesis
      unfolding removeMember_found [OF \<open>getRoom st c = Some r\<close> Some] snd_conv
      using storeOk_update [OF assms ok'] .
  qed
qed

subsection \<open>Runs end in reachable stores\<close>

lemma demoStore_run: "map_option fst (run demoLib demoInputs []) = Some demoStore"
  by code_simp

lemma emptiedStore_run: "map_option fst (run demoLib emptiedInputs []) = Some emptiedStore"
  by code_simp

lemma run_reachable:
  "reachable L st \<Longrightarrow> run L ins st = Some (st', out) \<Longrightarrow> reachable L st'"
proof (induction ins arbitrary: st out)
  case Nil
  then show ?case by simp
next
  case (Cons a ins)
  obtain e ev where a: "a = (e, ev)" by (cases a)
  from Cons.prems(2) obtain st1 out1 out2 where
    h: "handle L e ev st = Some (st1, out1)" and r: "run L ins st1 = Some (st', out2)"
    unfolding a by (auto split: option.splits)
  from Cons.prems(1) h have "reachable L st1" by (rule reachable.step)
  from Cons.IH [OF this r] show ?case .
qed

lemma run_fst_reachable:
  assumes "map_option fst (run L ins []) = Some st"
  shows "reachable L st"
proof -
  from assms obtain out where "run L ins [] = Some (st, out)"
    by (cases "run L ins []") auto
  with reachable.start show ?thesis by (rule run_reachable)
qed

lemma demoStore_reachable: "reachable demoLib demoStore"
  by (rule run_fst_reachable [OF demoStore_run])

lemma emptiedStore_reachable: "reachable demoLib emptiedStore"
  by (rule run_fst_reachable [OF emptiedStore_run])

text \<open>
  C1. The claim is that in every store reached from the empty one by the public operations,
  a room with a member has exactly one member whose \<^verbatim>\<open>isHost\<close> is true. The run below
  is such a sequence: \<open>s1\<close> creates room \<open>abc123\<close> and disconnects, then \<open>s2\<close> joins
  it. join-room passes \<^verbatim>\<open>isHost: false\<close>, which \<open>upsertMember\<close> takes as given, so the
  room ends with one member and no host.
\<close>

theorem rejoin_has_no_host:
  "map_option (hostFlags \<circ> fst) (run demoLib rejoinInputs []) = Some [(''abc123'', [False])]"
  by code_simp

subsection \<open>Claims about single operations\<close>

lemma getRoomOf_Some:
  "getRoomOf st v = Some (c, r) \<longleftrightarrow> v = JStr c \<and> getRoom st c = Some r"
  by (cases v) (auto split: option.splits)

text \<open>
  C10. For every code that names no live room, \<open>getMembersSnapshot\<close> returns the empty
  sequence, so a member list broadcast for a deleted or never-created room carries an
  empty \<^verbatim>\<open>members\<close> array.
\<close>

theorem missing_room_has_empty_snapshot:
  "getRoom st c = None \<Longrightarrow>
   getMembersSnapshot st c = [] \<and> emitMembers st c = ToRoom c (RoomMembers [])"
  by (simp add: getMembersSnapshot_def emitMembers_def)

theorem missing_room_has_empty_snapshot_witness:
  "getRoom demoStore ''zzzzzz'' = None
   \<and> getMembersSnapshot demoStore ''zzzzzz'' = []
   \<and> emitMembers demoStore ''zzzzzz'' = ToRoom ''zzzzzz'' (RoomMembers [])"
proof -
  have h: "getRoom demoStore ''zzzzzz'' = None"
    by (simp add: getRoom_def demoStore_def)
  from h missing_room_has_empty_snapshot [OF h] show ?thesis by simp
qed

text \<open>
  C8. A join-room whose code names no live room is acknowledged with
  \<^verbatim>\<open>success:false\<close> and "Room not found"; one whose room has a password hash (a
  non-empty string, as every hash \<^verbatim>\<open>bcrypt.hash\<close> returns is) that the supplied password,
  or the empty string when it is omitted, does not verify against is acknowledged with
  "Invalid password". In both cases the store is returned as it was and the
  acknowledgment is the only effect: no member is upserted and no \<^verbatim>\<open>room:members\<close>
  broadcast is made.
\<close>

theorem join_room_failures:
  "(getRoom st c = None \<longrightarrow>
      join_room L e sock c password pr st = (st, [Callback sock (AckFail ''Room not found'')]))
   \<and> (getRoom st c = Some r \<and> passwordHash r = Some h \<and> h \<noteq> []
        \<and> \<not> bcrypt_compare L (case password of None \<Rightarrow> [] | Some p \<Rightarrow> p) h \<longrightarrow>
      join_room L e sock c password pr st =
        (st, [Callback sock (AckFail ''Invalid password'')]))"
  by (simp add: join_room_def passwordRejected_def)

theorem join_room_failures_witness:
  "getRoom demoStore ''ZZZZZZ'' = None
   \<and> join_room demoLib (demoEnv [] ''5'' 500) ''s4'' ''ZZZZZZ'' (Some ''secret'') None demoStore
       = (demoStore, [Callback ''s4'' (AckFail ''Room not found'')])
   \<and> getRoom demoStore ''abc123'' = Some demoRoom
   \<and> passwordHash demoRoom = Some ''$2b$secret''
   \<and> \<not> bcrypt_compare demoLib ''wrong'' ''$2b$secret''
   \<and> join_room demoLib (demoEnv [] ''5'' 500) ''s4'' ''abc123'' (Some ''wrong'') None demoStore
       = (demoStore, [Callback ''s4'' (AckFail ''Invalid password'')])
   \<and> \<not> bcrypt_compare demoLib [] ''$2b$secret''
   \<and> join_room demoLib (demoEnv [] ''5'' 500) ''s4'' ''abc123'' None None demoStore
       = (demoStore, [Callback ''s4'' (AckFail ''Invalid password'')])"
proof -
  have none: "getRoom demoStore ''ZZZZZZ'' = None"
    by (simp add: getRoom_def demoStore_def)
  have some: "getRoom demoStore ''abc123'' = Some demoRoom"
    by (simp add: getRoom_def demoStore_def)
  have hash: "passwordHash demoRoom = Some ''$2b$secret''"
    by (simp add: demoRoom_def)
  have wrong: "\<not> bcrypt_compare demoLib ''wrong'' ''$2b$secret''"
    and omitted: "\<not> bcrypt_compare demoLib [] ''$2b$secret''"
    by (simp_all add: demoLib_def)
  show ?thesis
    using none some hash wrong omitted
      join_room_failures [of demoStore "''ZZZZZZ''" demoLib "demoEnv [] ''5'' 500" "''s4''"
        "Some ''secret''" None]
      join_room_failures [of demoStore "''abc123''" demoLib "demoEnv [] ''5'' 500" "''s4''"
        "Some ''wrong''" None demoRoom "''$2b$secret''"]
      join_room_failures [of demoStore "''abc123''" demoLib "demoEnv [] ''5'' 500" "''s4''"
        None None demoRoom "''$2b$secret''"]
    by simp
qed

text \<open>
  C3, as amended. For every undo event on an existing room whose \<^verbatim>\<open>strokeId\<close> is a string
  that is the id of no entry of the room's history, the handler returns at
  \<^verbatim>\<open>if (index === -1) return\<close>: the store is unchanged and nothing is emitted, the
  \<^verbatim>\<open>canvas:undo\<close> broadcast included.
\<close>

theorem undo_unknown_id_emits_nothing:
  "getRoomOf st (js_or cp rc) = Some (c, r) \<Longrightarrow> sid \<notin> s_id ` set (history r) \<Longrightarrow>
   canvas_undo e sock cp rc (JStr sid) st = (st, [])"
proof -
  assume room: "getRoomOf st (js_or cp rc) = Some (c, r)"
    and absent: "sid \<notin> s_id ` set (history r)"
  from absent have "findIndex (\<lambda>entry. s_id entry = sid) (history r) = None"
    by (auto simp: findIndex_None)
  with room show ?thesis
    by (simp add: canvas_undo_def Let_def)
qed

theorem undo_unknown_id_emits_nothing_witness:
  "getRoomOf demoStore (js_or JUndefined (JStr ''abc123'')) = Some (''abc123'', demoRoom)
   \<and> ''nope'' \<notin> s_id ` set (history demoRoom)
   \<and> canvas_undo (demoEnv [] ''5'' 500) ''s2'' JUndefined (JStr ''abc123'') (JStr ''nope'') demoStore
       = (demoStore, [])"
proof -
  have room: "getRoomOf demoStore (js_or JUndefined (JStr ''abc123'')) = Some (''abc123'', demoRoom)"
    by (simp add: js_or_def getRoom_def demoStore_def)
  have absent: "''nope'' \<notin> s_id ` set (history demoRoom)"
    by (simp add: demoRoom_def demoNormalized_def)
  from room absent undo_unknown_id_emits_nothing [OF room absent] show ?thesis by simp
qed

text \<open>
  The claim as stated has the \<^verbatim>\<open>canvas:undo\<close> broadcast emitted all the same. It is not:
  the id \<open>nope\<close> is in no entry of the history of room \<open>abc123\<close>, and the undo emits
  no broadcast.
\<close>

theorem undo_unknown_id_broadcast_counterexample:
  "getRoom demoStore ''abc123'' = Some demoRoom
   \<and> ''nope'' \<notin> s_id ` set (history demoRoom)
   \<and> ToRoom ''abc123'' (CanvasUndo ''nope'')
       \<notin> set (snd (canvas_undo (demoEnv [] ''5'' 500) ''s2'' JUndefined (JStr ''abc123'')
                     (JStr ''nope'') demoStore))"
  by (simp add: canvas_undo_def js_or_def getRoom_def demoStore_def demoRoom_def
      demoNormalized_def)

lemma getRoom_update_same: "getRoom (AList.update c r st) c = Some r"
  by (simp add: getRoom_def update_conv')


lemma pushCapped_eq:
  "pushCapped h n = (if length h \<ge> 5000 then tl h @ [n] else h @ [n])"
proof (cases h)
  case Nil
  then show ?thesis by (simp add: pushCapped_def Let_def)
next
  case (Cons x xs)
  then show ?thesis by (auto simp: pushCapped_def Let_def)
qed


lemma canvas_stroke_accepted:
  assumes "truthy (js_or cp rc)" and "getRoomOf st (js_or cp rc) = Some (c, r)"
    and "isValidStroke stroke"
  shows "canvas_stroke e sock cp rc stroke st =
     (AList.update c
        (r \<lparr> history := pushCapped (history r) (normalizeStroke stroke (uuidStroke e) (tStamp e)),
             lastActive := tNow e \<rparr>) st,
      [ToRoom c (CanvasStroke (normalizeStroke stroke (uuidStroke e) (tStamp e)))])"
  using assms by (simp add: canvas_stroke_def Let_def)

text \<open>
  C4, as amended. For every stroke event on an existing room whose stroke payload has an
  empty points array, the emptiness is no ground for rejection: the stroke passes
  validation exactly when its \<^verbatim>\<open>color\<close> is a string and its \<^verbatim>\<open>width\<close> or its \<^verbatim>\<open>size\<close> is a
  number, and then it is normalized with no points, appended at the end of the room's
  history (whose oldest entry goes when 5000 were held already) and broadcast to the room
  as \<^verbatim>\<open>canvas:stroke\<close>; nothing else of the store changes but the room's \<^verbatim>\<open>lastActive\<close>.
\<close>

theorem empty_points_stroke_is_accepted:
  assumes points: "getProp stroke ''points'' = JArr []"
    and code: "truthy (js_or cp rc)"
    and room: "getRoomOf st (js_or cp rc) = Some (c, r)"
  shows "(isValidStroke stroke \<longleftrightarrow>
            is_string (getProp stroke ''color'')
            \<and> (is_number (getProp stroke ''width'') \<or> is_number (getProp stroke ''size'')))
       \<and> (isValidStroke stroke \<longrightarrow>
            s_points (normalizeStroke stroke (uuidStroke e) (tStamp e)) = []
            \<and> canvas_stroke e sock cp rc stroke st
                = (AList.update c
                     (r \<lparr> history :=
                            (if length (history r) \<ge> 5000
                             then tl (history r)
                                    @ [normalizeStroke stroke (uuidStroke e) (tStamp e)]
                             else history r
                                    @ [normalizeStroke stroke (uuidStroke e) (tStamp e)]),
                          lastActive := tNow e \<rparr>) st,
                   [ToRoom c (CanvasStroke (normalizeStroke stroke (uuidStroke e) (tStamp e)))]))"
proof -
  from points have obj: "truthy stroke"
    by (cases stroke) simp_all
  have valid: "isValidStroke stroke \<longleftrightarrow>
      is_string (getProp stroke ''color'')
      \<and> (is_number (getProp stroke ''width'') \<or> is_number (getProp stroke ''size''))"
    using obj points by (auto simp: isValidStroke_def Let_def)
  have empty: "s_points (normalizeStroke stroke u t) = []" for u t
    using points by (simp add: normalizeStroke_def)
  show ?thesis
    using valid empty canvas_stroke_accepted [OF code room, of stroke e sock]
    by (simp only: pushCapped_eq) simp
qed

theorem empty_points_stroke_is_accepted_witness:
  "getProp emptyStroke ''points'' = JArr []
   \<and> truthy (js_or JUndefined (JStr ''abc123''))
   \<and> getRoomOf demoStore (js_or JUndefined (JStr ''abc123'')) = Some (''abc123'', demoRoom)
   \<and> isValidStroke emptyStroke
   \<and> s_points (normalizeStroke emptyStroke (uuidStroke (demoEnv [] ''5'' 500))
                 (tStamp (demoEnv [] ''5'' 500))) = []
   \<and> canvas_stroke (demoEnv [] ''5'' 500) ''s1'' JUndefined (JStr ''abc123'') emptyStroke demoStore
       = (AList.update ''abc123''
            (demoRoom \<lparr> history := history demoRoom
                            @ [normalizeStroke emptyStroke (uuidStroke (demoEnv [] ''5'' 500))
                                 (tStamp (demoEnv [] ''5'' 500))],
                         lastActive := tNow (demoEnv [] ''5'' 500) \<rparr>) demoStore,
          [ToRoom ''abc123''
             (CanvasStroke (normalizeStroke emptyStroke (uuidStroke (demoEnv [] ''5'' 500))
                              (tStamp (demoEnv [] ''5'' 500))))])"
proof -
  have points: "getProp emptyStroke ''points'' = JArr []"
    by (simp add: emptyStroke_def)
  have code: "truthy (js_or JUndefined (JStr ''abc123''))"
    by (simp add: js_or_def)
  have room: "getRoomOf demoStore (js_or JUndefined (JStr ''abc123'')) = Some (''abc123'', demoRoom)"
    by (simp add: js_or_def getRoom_def demoStore_def)
  have valid: "is_string (getProp emptyStroke ''color'')
      \<and> (is_number (getProp emptyStroke ''width'') \<or> is_number (getProp emptyStroke ''size''))"
    by (simp add: emptyStroke_def)
  have short: "\<not> length (history demoRoom) \<ge> 5000"
    by (simp add: demoRoom_def)
  from empty_points_stroke_is_accepted [OF points code room,
      where e = "demoEnv [] ''5'' 500" and sock = "''s1''"] valid points code room short
  show ?thesis by simp
qed

text \<open>
  The claim as stated has such a stroke discarded. It is not: \<open>emptyStroke\<close> has an empty
  points array, and after the handler has run on it the history of room \<open>abc123\<close> ends
  with its normalized form, which is also broadcast.
\<close>

theorem empty_points_stroke_counterexample:
  "getProp emptyStroke ''points'' = JArr []
   \<and> getRoom demoStore ''abc123'' = Some demoRoom
   \<and> canvas_stroke (demoEnv [] ''5'' 500) ''s1'' JUndefined (JStr ''abc123'') emptyStroke demoStore
       = ([(''abc123'', demoRoom \<lparr> history := [demoNormalized, emptyNormalized],
                                      lastActive := 500 \<rparr>)],
          [ToRoom ''abc123'' (CanvasStroke emptyNormalized)])"
  by code_simp

text \<open>
  C2. The claim is that a member created by \<open>upsertMember\<close> is host if and only if no
  existing member of the room is host, and in particular that a caller upserted by
  join-room into a room with no host becomes host. The room \<open>abc123\<close> of \<open>emptiedStore\<close>
  (reached by a create-room and the creator's disconnect) has no member, so no host, and
  \<open>s2\<close> is not a member of it. The join-room of \<open>s2\<close> upserts \<open>joinPayload\<close>, with
  \<^verbatim>\<open>isHost: false\<close>, and the member created is not host: the \<^verbatim>\<open>!hasHost\<close> default of
  \<open>upsertMember\<close>, which would have made it host, is never consulted.
\<close>

theorem join_payload_creates_no_host:
  "getRoom emptiedStore ''abc123'' = Some emptiedRoom
   \<and> u_socketId joinPayload \<notin> socketId ` set (members emptiedRoom)
   \<and> \<not> list_ex isHost (members emptiedRoom)
   \<and> fst (join_room demoLib (demoEnv ''abc123'' ''3'' 300) ''s2'' ''abc123'' None None
             emptiedStore)
       = snd (upsertMember emptiedStore ''abc123'' joinPayload 300 ''member-3'')
   \<and> map_option isHost (fst (upsertMember emptiedStore ''abc123'' joinPayload 300 ''member-3''))
       = Some False"
  by code_simp

subsection \<open>Every handler keeps the invariant\<close>

lemma createRoom_Some:
  assumes "createRoom st pw draws t1 t2 = Some (r, st1)"
  shows "st1 = AList.update (code r) r st \<and> members r = [] \<and> history r = []
       \<and> canvasData r = None \<and> passwordHash r = pw"
  using assms by (auto simp: createRoom_def Let_def split: option.splits)

lemma roomOk_fresh:
  "members r = [] \<Longrightarrow> history r = [] \<Longrightarrow> canvasData r = None \<Longrightarrow> roomOk r"
  by (simp add: roomOk_def atMostOneHost_def)

lemma storeOk_getRoomOf: "storeOk st \<Longrightarrow> getRoomOf st v = Some (c, r) \<Longrightarrow> roomOk r"
  by (auto simp: getRoomOf_Some dest: storeOk_getRoom)

lemma create_room_ok:
  assumes st: "storeOk st" and run: "create_room L e sock password pr st = Some (st', out)"
  shows "storeOk st'"
proof -
  let ?pw = "case password of None \<Rightarrow> None
             | Some p \<Rightarrow> if p \<noteq> [] then Some (bcrypt_hash L p (salt e)) else None"
  let ?payload = "\<lparr> u_socketId = sock, u_clientId = n_clientId (buildProfile L e pr),
      u_displayName = n_displayName (buildProfile L e pr),
      u_avatar = n_avatar (buildProfile L e pr), u_isHost = Some True \<rparr>"
  from run obtain r st1 where
    made: "createRoom st ?pw (codeDraws e) (tCreated e) (tActive e) = Some (r, st1)"
    and st': "st' = snd (upsertMember st1 (code r) ?payload (tNow e) (uuidMember e))"
    by (auto simp: create_room_def Let_def split: option.splits prod.splits)
  note fresh = createRoom_Some [OF made]
  have ok1: "storeOk st1"
    using fresh storeOk_update [OF st roomOk_fresh] by simp
  have room: "getRoom st1 (code r) = Some r"
    using fresh by (simp add: getRoom_update_same)
  have none: "findIndex (\<lambda>m. socketId m = u_socketId ?payload) (members r) = None"
    using fresh by simp
  show ?thesis
    unfolding st' upsertMember_new [OF room none] snd_conv
    by (rule storeOk_update [OF ok1]) (simp add: roomOk_def atMostOneHost_def fresh)
qed

lemma join_room_ok:
  assumes st: "storeOk st"
  shows "storeOk (fst (join_room L e sock c password pr st))"
proof (cases "getRoom st c")
  case None
  with st show ?thesis by (simp add: join_room_def)
next
  case (Some r)
  show ?thesis
  proof (cases "passwordRejected L r password")
    case True
    with Some st show ?thesis by (simp add: join_room_def)
  next
    case False
    let ?payload = "\<lparr> u_socketId = sock, u_clientId = n_clientId (buildProfile L e pr),
        u_displayName = n_displayName (buildProfile L e pr),
        u_avatar = n_avatar (buildProfile L e pr), u_isHost = Some False \<rparr>"
    obtain m st1 where up: "upsertMember st c ?payload (tNow e) (uuidMember e) = (m, st1)"
      by (cases "upsertMember st c ?payload (tNow e) (uuidMember e)")
    have "storeOk (snd (upsertMember st c ?payload (tNow e) (uuidMember e)))"
      by (rule upsertMember_joiner_ok [OF st]) simp
    then have "storeOk st1"
      by (simp add: up)
    with Some False up show ?thesis
      by (simp add: join_room_def Let_def)
  qed
qed

lemma pushCapped_length: "length h \<le> 5000 \<Longrightarrow> length (pushCapped h n) \<le> 5000"
  by (simp add: pushCapped_eq)

lemma canvas_stroke_ok:
  assumes st: "storeOk st"
  shows "storeOk (fst (canvas_stroke e sock cp rc stroke st))"
proof (cases "truthy (js_or cp rc) \<and> isValidStroke stroke")
  case False
  with st show ?thesis
    by (auto simp: canvas_stroke_def Let_def split: option.splits)
next
  case True
  show ?thesis
  proof (cases "getRoomOf st (js_or cp rc)")
    case None
    with st show ?thesis by (simp add: canvas_stroke_def Let_def)
  next
    case (Some cr)
    obtain c r where cr: "cr = (c, r)" by (cases cr)
    with Some have room: "getRoomOf st (js_or cp rc) = Some (c, r)" by simp
    then have "roomOk r"
      by (rule storeOk_getRoomOf [OF st])
    then have "roomOk (r \<lparr> history := pushCapped (history r) n, lastActive := t \<rparr>)" for n t
      by (simp add: roomOk_def pushCapped_length)
    then show ?thesis
      using True canvas_stroke_accepted [OF _ room, of stroke e sock] storeOk_update [OF st]
      by simp
  qed
qed

lemma splice1_length: "length (splice1 i xs) \<le> length xs"
  by (simp add: splice1_def)

lemma canvas_undo_ok:
  assumes st: "storeOk st"
  shows "storeOk (fst (canvas_undo e sock cp rc strokeId st))"
proof -
  have keep: "roomOk (r \<lparr> history := splice1 i (history r), lastActive := t,
        canvasData := (case canvasData r of None \<Rightarrow> None
                       | Some d \<Rightarrow> if startsWith (trim d) ''{'' then None else Some d) \<rparr>)"
    if "roomOk r" for r i t
  proof -
    have "length (splice1 i (history r)) \<le> 5000"
      using that splice1_length [of i "history r"] by (simp add: roomOk_def)
    then show ?thesis
      using that by (auto simp: roomOk_def split: option.splits)
  qed
  have "roomOk r" if "getRoomOf st v = Some (c, r)" for v c r
    using that by (rule storeOk_getRoomOf [OF st])
  with st keep show ?thesis
    by (auto simp: canvas_undo_def Let_def storeOk_update split: jsval.splits option.splits)
qed

lemma startsWith_nonempty: "startsWith s p \<Longrightarrow> p \<noteq> [] \<Longrightarrow> s \<noteq> []"
  by (auto simp: startsWith_def)

lemma canvas_save_snapshot_ok:
  assumes st: "storeOk st"
  shows "storeOk (fst (canvas_save_snapshot e sock cp rc snapshot st))"
proof -
  have keep: "roomOk (r \<lparr> canvasData := Some d, lastActive := t \<rparr>)"
    if "roomOk r" and "d \<noteq> []" for r d t
    using that by (simp add: roomOk_def)
  have "roomOk r" if "getRoomOf st v = Some (c, r)" for v c r
    using that by (rule storeOk_getRoomOf [OF st])
  with st keep show ?thesis
    by (auto simp: canvas_save_snapshot_def Let_def storeOk_update
        dest!: startsWith_nonempty split: jsval.splits option.splits)
qed

lemma disconnectLoop_ok:
  "storeOk st \<Longrightarrow> storeOk (fst (disconnectLoop sock clock i cs st))"
proof (induction cs arbitrary: i st)
  case Nil
  then show ?case by simp
next
  case (Cons c cs)
  obtain removed st1 where rm: "removeMemberBySocketId st c sock (clock i) = (removed, st1)"
    by (cases "removeMemberBySocketId st c sock (clock i)")
  with removeMember_ok [OF Cons.prems, of c sock "clock i"] have "storeOk st1"
    by simp
  from Cons.IH [OF this, of "Suc i"] rm show ?case
    by (cases removed) (auto split: prod.splits)
qed

lemma rest_create_room_ok:
  assumes st: "storeOk st" and run: "rest_create_room e st = Some (st', out)"
  shows "storeOk st'"
proof -
  from run obtain r where
    made: "createRoom st None (codeDraws e) (tCreated e) (tActive e) = Some (r, st')"
    by (auto simp: rest_create_room_def split: option.splits)
  from createRoom_Some [OF made] storeOk_update [OF st roomOk_fresh] show ?thesis
    by simp
qed

lemma handle_ok:
  assumes st: "storeOk st" and run: "handle L e ev st = Some (st', out)"
  shows "storeOk st'"
proof (cases ev)
  case (CreateRoomEv sock password pr)
  with run show ?thesis by (simp add: create_room_ok [OF st])
next
  case (JoinRoomEv sock c password pr)
  with run join_room_ok [OF st, of L e sock c password pr] show ?thesis by auto
next
  case (StrokeEv sock cp rc stroke)
  with run canvas_stroke_ok [OF st, of e sock cp rc stroke] show ?thesis by auto
next
  case (UndoEv sock cp rc strokeId)
  with run canvas_undo_ok [OF st, of e sock cp rc strokeId] show ?thesis by auto
next
  case (RequestSnapshotEv sock cp rc)
  with run st show ?thesis
    by (auto simp: canvas_request_snapshot_def split: option.splits)
next
  case (SaveSnapshotEv sock cp rc snapshot)
  with run canvas_save_snapshot_ok [OF st, of e sock cp rc snapshot] show ?thesis by auto
next
  case (DisconnectEv sock)
  with run disconnectLoop_ok [OF st, of sock "tLoop e" 0 "map fst (listRooms st)"]
  show ?thesis by (auto simp: disconnect_def)
next
  case RestCreateRoomEv
  with run show ?thesis by (simp add: rest_create_room_ok [OF st])
next
  case CleanupEv
  with run storeOk_filter [OF st] show ?thesis
    by (auto simp: cleanup_tick_def cleanupInactiveRooms_def)
qed

lemma reachable_storeOk: "reachable L st \<Longrightarrow> storeOk st"
proof (induction rule: reachable.induct)
  case start
  show ?case by (simp add: storeOk_def)
next
  case (step st e ev st' out)
  then show ?case by (simp add: handle_ok)
qed

subsection \<open>Claims about reachable stores\<close>

lemma isValidStroke_demoStroke: "isValidStroke demoStroke"
  by (simp add: isValidStroke_def validPoint_def demoStroke_def)

text \<open>
  C5. In every reachable store the history of every room has at most 5000 entries; and
  when an accepted stroke is appended to a history already holding 5000 entries, the
  oldest entry is evicted and the new stroke is kept at the end.
\<close>

theorem history_never_exceeds_cap:
  "(reachable L st \<and> getRoom st c = Some r \<longrightarrow> length (history r) \<le> 5000)
   \<and> (truthy (js_or cp rc) \<and> getRoomOf st (js_or cp rc) = Some (c, r)
        \<and> isValidStroke stroke \<and> length (history r) = 5000 \<longrightarrow>
       (\<exists>r'. getRoom (fst (canvas_stroke e sock cp rc stroke st)) c = Some r'
            \<and> history r' = tl (history r) @ [normalizeStroke stroke (uuidStroke e) (tStamp e)]
            \<and> length (history r') = 5000))"
proof (intro conjI impI)
  assume "reachable L st \<and> getRoom st c = Some r"
  then have "roomOk r"
    using reachable_storeOk storeOk_getRoom by blast
  then show "length (history r) \<le> 5000"
    by (simp add: roomOk_def)
next
  assume h: "truthy (js_or cp rc) \<and> getRoomOf st (js_or cp rc) = Some (c, r)
      \<and> isValidStroke stroke \<and> length (history r) = 5000"
  then have "canvas_stroke e sock cp rc stroke st =
     (AList.update c
        (r \<lparr> history := pushCapped (history r) (normalizeStroke stroke (uuidStroke e) (tStamp e)),
             lastActive := tNow e \<rparr>) st,
      [ToRoom c (CanvasStroke (normalizeStroke stroke (uuidStroke e) (tStamp e)))])"
    by (simp add: canvas_stroke_accepted)
  moreover have "pushCapped (history r) n = tl (history r) @ [n]" for n
    using h by (simp add: pushCapped_eq)
  ultimately show "\<exists>r'. getRoom (fst (canvas_stroke e sock cp rc stroke st)) c = Some r'
      \<and> history r' = tl (history r) @ [normalizeStroke stroke (uuidStroke e) (tStamp e)]
      \<and> length (history r') = 5000"
    using h by (simp add: getRoom_update_same)
qed

theorem history_never_exceeds_cap_witness:
  "reachable demoLib demoStore \<and> getRoom demoStore ''abc123'' = Some demoRoom
   \<and> length (history demoRoom) \<le> 5000
   \<and> truthy (js_or JUndefined (JStr ''abc123''))
   \<and> getRoomOf fullStore (js_or JUndefined (JStr ''abc123'')) = Some (''abc123'', fullRoom)
   \<and> isValidStroke demoStroke \<and> length (history fullRoom) = 5000
   \<and> (\<exists>r'. getRoom (fst (canvas_stroke (demoEnv [] ''5'' 500) ''s2'' JUndefined (JStr ''abc123'')
                            demoStroke fullStore)) ''abc123'' = Some r'
          \<and> history r' = tl (history fullRoom)
               @ [normalizeStroke demoStroke (uuidStroke (demoEnv [] ''5'' 500))
                    (tStamp (demoEnv [] ''5'' 500))]
          \<and> length (history r') = 5000)"
proof -
  have room: "getRoom demoStore ''abc123'' = Some demoRoom"
    by (simp add: getRoom_def demoStore_def)
  have code: "truthy (js_or JUndefined (JStr ''abc123''))"
    by (simp add: js_or_def)
  have full: "getRoomOf fullStore (js_or JUndefined (JStr ''abc123'')) = Some (''abc123'', fullRoom)"
    by (simp add: js_or_def getRoom_def fullStore_def)
  have len: "length (history fullRoom) = 5000"
    by (simp add: fullRoom_def)
  show ?thesis
    using demoStore_reachable room code full len isValidStroke_demoStroke
      history_never_exceeds_cap [of demoLib demoStore "''abc123''" demoRoom]
      history_never_exceeds_cap [of _ fullStore "''abc123''" fullRoom JUndefined "JStr ''abc123''"
        demoStroke "demoEnv [] ''5'' 500" "''s2''"]
    by blast
qed

lemma snapStore_run: "map_option fst (run demoLib snapInputs []) = Some snapStore"
  by code_simp

lemma snapStore_reachable: "reachable demoLib snapStore"
  by (rule run_fst_reachable [OF snapStore_run])

lemma unicasts_append: "unicasts (xs @ ys) = unicasts xs @ unicasts ys"
  by (induction xs rule: unicasts.induct) simp_all

lemma unicasts_ToSocket: "unicasts (map (ToSocket s) ms) = map (Pair s) ms"
  by (induction ms) simp_all

lemma recovery_effects:
  assumes "canvasData r \<noteq> Some []"
  shows "(case canvasData r of
            Some d \<Rightarrow>
              if d \<noteq> [] then [ToSocket sock (CanvasSnapshot d)]
              else if length (history r) > 0
              then [ToSocket sock (CanvasHistory (history r))] else []
          | None \<Rightarrow>
              if length (history r) > 0
              then [ToSocket sock (CanvasHistory (history r))] else [])
       = map (ToSocket sock) (specRecovery r)"
  using assms by (cases "canvasData r") (simp_all add: specRecovery_def)

text \<open>
  C7. In every reachable store, a join-room that succeeds (the room exists and the
  password is not rejected) and a request-snapshot on an existing room send to the
  connection itself exactly what the specification words: the stored snapshot when one is
  present, else the raw history when it is non-empty, else nothing; never both.
\<close>

theorem recovery_snapshot_before_history:
  "(reachable L st \<and> getRoom st c = Some r \<and> \<not> passwordRejected L r password \<longrightarrow>
      unicasts (snd (join_room L e sock c password pr st)) = map (Pair sock) (specRecovery r))
   \<and> (reachable L st \<and> getRoomOf st (js_or cp rc) = Some (c, r) \<longrightarrow>
      canvas_request_snapshot sock cp rc st = (st, map (ToSocket sock) (specRecovery r)))"
proof (intro conjI impI)
  assume h: "reachable L st \<and> getRoom st c = Some r \<and> \<not> passwordRejected L r password"
  then have "roomOk r"
    using reachable_storeOk storeOk_getRoom by blast
  then have "canvasData r \<noteq> Some []"
    by (simp add: roomOk_def)
  note rec = recovery_effects [OF this, of sock]
  obtain m st1 where up: "upsertMember st c
      \<lparr> u_socketId = sock, u_clientId = n_clientId (buildProfile L e pr),
        u_displayName = n_displayName (buildProfile L e pr),
        u_avatar = n_avatar (buildProfile L e pr), u_isHost = Some False \<rparr>
      (tNow e) (uuidMember e) = (m, st1)"
    by (cases "upsertMember st c
      \<lparr> u_socketId = sock, u_clientId = n_clientId (buildProfile L e pr),
        u_displayName = n_displayName (buildProfile L e pr),
        u_avatar = n_avatar (buildProfile L e pr), u_isHost = Some False \<rparr>
      (tNow e) (uuidMember e)")
  have "snd (join_room L e sock c password pr st) =
      [Subscribe sock c, emitMembers st1 c] @ map (ToSocket sock) (specRecovery r)
      @ [Callback sock (AckOk c (case m of None \<Rightarrow> False | Some x \<Rightarrow> isHost x)
           (getMembersSnapshot st1 c) (toSnapshot m))]"
    using h up by (simp add: join_room_def Let_def rec del: length_greater_0_conv)
  then show "unicasts (snd (join_room L e sock c password pr st))
      = map (Pair sock) (specRecovery r)"
    by (simp add: unicasts_append unicasts_ToSocket emitMembers_def)
next
  assume h: "reachable L st \<and> getRoomOf st (js_or cp rc) = Some (c, r)"
  then have "roomOk r"
    using reachable_storeOk storeOk_getRoomOf by blast
  then have "canvasData r \<noteq> Some []"
    by (simp add: roomOk_def)
  note rec = recovery_effects [OF this, of sock]
  show "canvas_request_snapshot sock cp rc st = (st, map (ToSocket sock) (specRecovery r))"
    using h by (simp add: canvas_request_snapshot_def rec del: length_greater_0_conv)
qed

theorem recovery_snapshot_before_history_witness:
  "reachable demoLib demoStore \<and> getRoom demoStore ''abc123'' = Some demoRoom
   \<and> \<not> passwordRejected demoLib demoRoom (Some ''secret'')
   \<and> getRoomOf demoStore (js_or JUndefined (JStr ''abc123'')) = Some (''abc123'', demoRoom)
   \<and> unicasts (snd (join_room demoLib (demoEnv [] ''5'' 500) ''s4'' ''abc123'' (Some ''secret'')
                      None demoStore))
       = [(''s4'', CanvasHistory [demoNormalized])]
   \<and> canvas_request_snapshot ''s2'' JUndefined (JStr ''abc123'') demoStore
       = (demoStore, [ToSocket ''s2'' (CanvasHistory [demoNormalized])])
   \<and> reachable demoLib snapStore \<and> getRoom snapStore ''abc123'' = Some snapRoom
   \<and> \<not> passwordRejected demoLib snapRoom (Some ''secret'')
   \<and> getRoomOf snapStore (js_or JUndefined (JStr ''abc123'')) = Some (''abc123'', snapRoom)
   \<and> history snapRoom \<noteq> []
   \<and> unicasts (snd (join_room demoLib (demoEnv [] ''5'' 500) ''s4'' ''abc123'' (Some ''secret'')
                      None snapStore))
       = [(''s4'', CanvasSnapshot ''data:image/png;base64,AAAA'')]
   \<and> canvas_request_snapshot ''s2'' JUndefined (JStr ''abc123'') snapStore
       = (snapStore, [ToSocket ''s2'' (CanvasSnapshot ''data:image/png;base64,AAAA'')])"
proof -
  have room: "getRoom demoStore ''abc123'' = Some demoRoom"
    and room': "getRoom snapStore ''abc123'' = Some snapRoom"
    by (simp_all add: getRoom_def demoStore_def snapStore_def)
  have pass: "\<not> passwordRejected demoLib demoRoom (Some ''secret'')"
    and pass': "\<not> passwordRejected demoLib snapRoom (Some ''secret'')"
    by (simp_all add: passwordRejected_def demoRoom_def snapRoom_def demoLib_def)
  have roomOf: "getRoomOf demoStore (js_or JUndefined (JStr ''abc123'')) = Some (''abc123'', demoRoom)"
    and roomOf': "getRoomOf snapStore (js_or JUndefined (JStr ''abc123'')) = Some (''abc123'', snapRoom)"
    by (simp_all add: js_or_def room room')
  have spec: "specRecovery demoRoom = [CanvasHistory [demoNormalized]]"
    and spec': "specRecovery snapRoom = [CanvasSnapshot ''data:image/png;base64,AAAA'']"
    and hist: "history snapRoom \<noteq> []"
    by (simp_all add: specRecovery_def demoRoom_def snapRoom_def)
  show ?thesis
    using demoStore_reachable snapStore_reachable room room' pass pass' roomOf roomOf'
      spec spec' hist
      recovery_snapshot_before_history [where L = demoLib and st = demoStore
        and c = "''abc123''" and r = demoRoom and password = "Some ''secret''"
        and e = "demoEnv [] ''5'' 500" and sock = "''s4''" and pr = None
        and cp = JUndefined and rc = "JStr ''abc123''"]
      recovery_snapshot_before_history [where L = demoLib and st = demoStore
        and c = "''abc123''" and r = demoRoom and sock = "''s2''"
        and cp = JUndefined and rc = "JStr ''abc123''"]
      recovery_snapshot_before_history [where L = demoLib and st = snapStore
        and c = "''abc123''" and r = snapRoom and password = "Some ''secret''"
        and e = "demoEnv [] ''5'' 500" and sock = "''s4''" and pr = None
        and cp = JUndefined and rc = "JStr ''abc123''"]
      recovery_snapshot_before_history [where L = demoLib and st = snapStore
        and c = "''abc123''" and r = snapRoom and sock = "''s2''"
        and cp = JUndefined and rc = "JStr ''abc123''"]
    by simp
qed

lemma removeMember_Some:
  assumes "removeMemberBySocketId st c sid now = (Some removed, st')"
  shows "\<exists>r i. getRoom st c = Some r
             \<and> findIndex (\<lambda>m. socketId m = sid) (members r) = Some i
             \<and> removed = members r ! i"
proof (cases "getRoom st c")
  case None
  with assms show ?thesis by (simp add: removeMemberBySocketId_def)
next
  case (Some r)
  show ?thesis
  proof (cases "findIndex (\<lambda>m. socketId m = sid) (members r)")
    case None
    with Some assms show ?thesis by (simp add: removeMemberBySocketId_def)
  next
    case found: (Some i)
    from assms show ?thesis
      unfolding removeMember_found [OF Some found] using Some found by simp
  qed
qed

text \<open>
  C6. In every reachable store, when \<open>removeMemberBySocketId\<close> removes a member whose
  \<^verbatim>\<open>isHost\<close> is true and other members remain, the members after the call are the remaining
  ones, in their order, with one of them promoted: that member is the only host, no
  remaining member joined earlier than it, and every remaining member before it in the
  list joined strictly later (on a tie the earliest in list order is promoted).
\<close>

theorem host_succession:
  assumes reach: "reachable L st"
    and call: "removeMemberBySocketId st c sid now = (Some removed, st')"
    and host: "isHost removed"
    and after: "getRoom st' c = Some r'"
    and remain: "members r' \<noteq> []"
  shows "\<exists>r i k. getRoom st c = Some r \<and> i < length (members r) \<and> members r ! i = removed
           \<and> socketId removed = sid
           \<and> k < length (members r')
           \<and> members r' = (splice1 i (members r))
                             [k := (splice1 i (members r) ! k) \<lparr> isHost := True \<rparr>]
           \<and> (\<forall>j<length (members r'). isHost (members r' ! j) \<longleftrightarrow> j = k)
           \<and> (\<forall>j<length (members r'). joinedAt (members r' ! k) \<le> joinedAt (members r' ! j))
           \<and> (\<forall>j<k. joinedAt (members r' ! k) < joinedAt (members r' ! j))"
proof -
  from removeMember_Some [OF call] obtain r i where
    room: "getRoom st c = Some r"
    and found: "findIndex (\<lambda>m. socketId m = sid) (members r) = Some i"
    and removed: "removed = members r ! i"
    by blast
  from findIndex_Some [OF found] have i: "i < length (members r)"
    and sid: "socketId (members r ! i) = sid"
    by simp_all
  let ?rest = "splice1 i (members r)"
  let ?k = "nextHostIndex ?rest"
  let ?rest' = "if isHost (members r ! i) \<and> length ?rest > 0
                then ?rest[?k := (?rest ! ?k) \<lparr> isHost := True \<rparr>] else ?rest"
  have "st' = snd (removeMemberBySocketId st c sid now)"
    using call by simp
  also have "\<dots> = AList.update c (r \<lparr> members := ?rest', lastActive := now \<rparr>) st"
    unfolding removeMember_found [OF room found] by (rule snd_conv)
  finally have "st' = AList.update c (r \<lparr> members := ?rest', lastActive := now \<rparr>) st" .
  with after have r': "r' = r \<lparr> members := ?rest', lastActive := now \<rparr>"
    by (simp add: getRoom_update_same)
  have nonempty: "?rest \<noteq> []"
    using remain unfolding r' by (auto split: if_splits)
  then have ms': "members r' = ?rest[?k := (?rest ! ?k) \<lparr> isHost := True \<rparr>]"
    unfolding r' using host removed by simp
  note first_min = nextHostIndex_first_min [OF nonempty]
  then have k: "?k < length ?rest" by simp
  have "roomOk r"
    using reachable_storeOk [OF reach] room by (rule storeOk_getRoom)
  then have "length (filter isHost (members r)) \<le> 1"
    by (simp add: roomOk_def atMostOneHost_def)
  with hosts_splice1 [OF i] host removed have "length (filter isHost ?rest) = 0"
    by simp
  then have none: "\<forall>m\<in>set ?rest. \<not> isHost m"
    by (simp only: hosts_none)
  have only: "isHost (members r' ! j) \<longleftrightarrow> j = ?k" if "j < length (members r')" for j
  proof (cases "j = ?k")
    case True
    with k show ?thesis by (simp add: ms')
  next
    case False
    from that have "j < length ?rest" by (simp add: ms')
    with none have "\<not> isHost (?rest ! j)" by simp
    with False show ?thesis by (simp add: ms')
  qed
  have joined: "joinedAt (members r' ! j) = joinedAt (?rest ! j)" if "j < length ?rest" for j
    using that by (cases "j = ?k") (simp_all add: ms')
  have len: "length (members r') = length ?rest"
    by (simp add: ms')
  have least: "\<forall>j<length (members r'). joinedAt (members r' ! ?k) \<le> joinedAt (members r' ! j)"
    using first_min joined k by (simp add: len)
  have first: "\<forall>j<?k. joinedAt (members r' ! ?k) < joinedAt (members r' ! j)"
    using first_min joined k by simp
  from room i removed sid k ms' only least first show ?thesis
    unfolding len [symmetric] by blast
qed

lemma promoted_call:
  "removeMemberBySocketId demoStore ''abc123'' ''s1'' 500
     = (Some (demoMember ''s1'' ''1'' 100 True), promotedStore)"
  by code_simp

theorem host_succession_witness:
  "reachable demoLib demoStore
   \<and> removeMemberBySocketId demoStore ''abc123'' ''s1'' 500
       = (Some (demoMember ''s1'' ''1'' 100 True), promotedStore)
   \<and> isHost (demoMember ''s1'' ''1'' 100 True)
   \<and> getRoom promotedStore ''abc123'' = Some promotedRoom
   \<and> map joinedAt (members promotedRoom) = [250, 250]
   \<and> map isHost (members promotedRoom) = [True, False]
   \<and> (\<exists>r i k. getRoom demoStore ''abc123'' = Some r \<and> i < length (members r)
          \<and> members r ! i = demoMember ''s1'' ''1'' 100 True
          \<and> socketId (demoMember ''s1'' ''1'' 100 True) = ''s1''
          \<and> k < length (members promotedRoom)
          \<and> members promotedRoom = (splice1 i (members r))
                                      [k := (splice1 i (members r) ! k) \<lparr> isHost := True \<rparr>]
          \<and> (\<forall>j<length (members promotedRoom). isHost (members promotedRoom ! j) \<longleftrightarrow> j = k)
          \<and> (\<forall>j<length (members promotedRoom).
                joinedAt (members promotedRoom ! k) \<le> joinedAt (members promotedRoom ! j))
          \<and> (\<forall>j<k. joinedAt (members promotedRoom ! k) < joinedAt (members promotedRoom ! j)))"
proof -
  have host: "isHost (demoMember ''s1'' ''1'' 100 True)"
    by (simp add: demoMember_def)
  have after: "getRoom promotedStore ''abc123'' = Some promotedRoom"
    by (simp add: getRoom_def promotedStore_def)
  have remain: "members promotedRoom \<noteq> []"
    by (simp add: promotedRoom_def)
  have flags: "map joinedAt (members promotedRoom) = [250, 250]"
    "map isHost (members promotedRoom) = [True, False]"
    by (simp_all add: promotedRoom_def demoMember_def)
  from host_succession [OF demoStore_reachable promoted_call host after remain]
    demoStore_reachable promoted_call host after flags
  show ?thesis by blast
qed

subsection \<open>What each handler does to the history and the snapshot of a room\<close>











subsection \<open>A stroke stays in the history\<close>


















end
